theory Spec2Isabelle
  imports Complex_Main
begin

section \<open>Data model of the game engine (js/game.js) and the network manager (js/network.js)\<close>

text \<open>
  JavaScript numbers that carry coordinates, velocities, sizes and frame times are
  modelled as \<^typ>\<open>real\<close>: \<open>+\<close>, \<open>-\<close>, \<open>*\<close>, \<open>/\<close>, \<open>Math.sqrt\<close> and \<open>Math.pow\<close> are the
  exact operations, so the rounding of IEEE-754 doubles is abstracted away; the mirroring
  of received state and the friction and clamp steps, where rounding decides what holds,
  are modelled a second time with every operation rounded to a double.  Scores are
  counters: they start at 0, the host increments them and the guest copies them from the
  host's messages, so they are natural numbers.  \<open>Date.now()\<close> is an integer number of
  milliseconds.

  The fields \<open>x\<close> and \<open>y\<close> of the puck and paddle objects are called \<open>px\<close> and \<open>py\<close> here,
  so that \<open>x\<close> and \<open>y\<close> stay available as variables.
\<close>

record kin =
  px :: real
  py :: real
  vx :: real
  vy :: real

record body = kin +
  radius :: real

text \<open>\<open>lastX\<close> and \<open>lastY\<close> are \<open>undefined\<close> until the first paddle message arrives.\<close>

record paddle = body +
  lastX :: "real option"
  lastY :: "real option"

record scoreboard =
  player :: nat
  opponent :: nat

datatype scorer = Player | Opponent

text \<open>The payload \<open>{puck: {x, y, vx, vy}, score: {player, opponent}}\<close> of a gameState message.\<close>

record snapshot =
  spuck :: kin
  sscore :: scoreboard

datatype message =
    Ready
  | Start
  | Paddle real real
  | GameState snapshot
  | PlayAgain

datatype error = TypeError

text \<open>The timer callback that \<open>goalScored\<close> registers; its argument is \<open>scorer === 'opponent'\<close>.\<close>

datatype timer = ResetPuckTimer bool

text \<open>
  Calls into the collaborators (Audio, UI, the browser, the PeerJS connection) are recorded
  as events, in the order the code makes them.  \<open>Sent m\<close> is a message handed to
  \<open>connection.send\<close> that did not throw; \<open>SendError\<close> is the logged exception of one that
  did.
\<close>

datatype event =
    Play string
  | ShowGoalAnnouncement
  | UpdateScore nat nat
  | ShowGameOver bool nat nat
  | CancelAnimationFrame nat
  | RequestAnimationFrame
  | Render
  | Sent message
  | SendError
  | SetTimeout timer nat
  | StartGame bool

record game =
  width :: real
  height :: real
  puck :: "body option"
  playerPaddle :: "paddle option"
  opponentPaddle :: "paddle option"
  isRunning :: bool
  isHost :: bool
  score :: scoreboard
  paddleRadius :: real
  puckRadius :: real
  goalWidth :: real
  wallThickness :: real
  puckTrail :: "(real \<times> real) list"
  lastTime :: real
  animationId :: "nat option"

text \<open>The fields of \<open>Game\<close> that are never assigned after the object literal.\<close>

definition winningScore :: nat where
  "winningScore = 11"

definition friction :: real where
  "friction = 0.995"

definition maxPuckSpeed :: real where
  "maxPuckSpeed = 25"

definition maxTrailLength :: nat where
  "maxTrailLength = 15"

text \<open>
  The \<open>Network\<close> object.  \<open>connection\<close> records whether \<open>this.connection\<close> is set;
  \<open>Network.isHost\<close> is called \<open>isHostN\<close>, since \<open>Game.isHost\<close> is a field of its own.
\<close>

record network =
  connection :: bool
  isConnected :: bool
  isHostN :: bool
  roomCode :: "string option"
  lastStateSend :: int

definition stateSendInterval :: int where
  "stateSendInterval = 33"

text \<open>
  What a call reads from its environment: \<open>Date.now()\<close>, whether \<open>connection.send\<close>
  throws, the handle that \<open>requestAnimationFrame\<close> returns and the value of
  \<open>Math.random()\<close>.
\<close>

record env =
  dateNow :: int
  sendThrows :: bool
  rafId :: nat
  rnd :: real

section \<open>Network: send and the throttled sendGameState\<close>

definition send :: "env \<Rightarrow> network \<Rightarrow> message \<Rightarrow> event list" where
  "send e n m =
     (if connection n \<and> isConnected n
      then (if sendThrows e then [SendError] else [Sent m])
      else [])"

definition sendGameState :: "env \<Rightarrow> network \<Rightarrow> snapshot \<Rightarrow> network \<times> event list" where
  "sendGameState e n st =
     (if dateNow e - lastStateSend n \<ge> stateSendInterval
      then (n\<lparr>lastStateSend := dateNow e\<rparr>, send e n (GameState st))
      else (n, []))"

definition sendPaddlePosition :: "env \<Rightarrow> network \<Rightarrow> real \<Rightarrow> real \<Rightarrow> event list" where
  "sendPaddlePosition e n x y = send e n (Paddle x y)"

section \<open>Game: the physics tick\<close>

text \<open>\<open>unshift\<close> the position, then \<open>pop\<close> when the trail got longer than \<open>maxTrailLength\<close>.\<close>

definition pushTrail :: "real \<times> real \<Rightarrow> (real \<times> real) list \<Rightarrow> (real \<times> real) list" where
  "pushTrail pos tr =
     (let tr' = pos # tr in if length tr' > maxTrailLength then butlast tr' else tr')"

definition movePuck :: "real \<Rightarrow> body \<Rightarrow> body" where
  "movePuck dt p = p\<lparr>px := px p + vx p * dt, py := py p + vy p * dt\<rparr>"

definition applyFriction :: "real \<Rightarrow> body \<Rightarrow> body" where
  "applyFriction dt p = p\<lparr>vx := vx p * (friction powr dt), vy := vy p * (friction powr dt)\<rparr>"

definition speed :: "body \<Rightarrow> real" where
  "speed p = sqrt (vx p * vx p + vy p * vy p)"

definition clampSpeed :: "body \<Rightarrow> body" where
  "clampSpeed p =
     (if speed p > maxPuckSpeed
      then p\<lparr>vx := (vx p / speed p) * maxPuckSpeed, vy := (vy p / speed p) * maxPuckSpeed\<rparr>
      else p)"

definition wallLeft :: "game \<Rightarrow> body \<Rightarrow> real" where
  "wallLeft g p = wallThickness g + radius p"

definition wallRight :: "game \<Rightarrow> body \<Rightarrow> real" where
  "wallRight g p = width g - wallThickness g - radius p"

definition wallTop :: "game \<Rightarrow> body \<Rightarrow> real" where
  "wallTop g p = wallThickness g + radius p"

definition wallBottom :: "game \<Rightarrow> body \<Rightarrow> real" where
  "wallBottom g p = height g - wallThickness g - radius p"

definition goalLeft :: "game \<Rightarrow> real" where
  "goalLeft g = (width g - goalWidth g) / 2"

definition goalRight :: "game \<Rightarrow> real" where
  "goalRight g = (width g + goalWidth g) / 2"

definition sideWalls :: "game \<Rightarrow> body \<Rightarrow> body \<times> event list" where
  "sideWalls g p =
     (if px p < wallLeft g p
      then (p\<lparr>px := wallLeft g p, vx := - vx p * 0.9\<rparr>, [Play ''wall''])
      else if px p > wallRight g p
      then (p\<lparr>px := wallRight g p, vx := - vx p * 0.9\<rparr>, [Play ''wall''])
      else (p, []))"

text \<open>
  The two end walls.  \<open>Inl s\<close> is the branch that calls \<open>goalScored(s)\<close> and returns from
  \<open>updatePhysics\<close>; \<open>Inr\<close> carries on with the puck and the sounds played.
\<close>

definition topWall :: "game \<Rightarrow> body \<Rightarrow> scorer + body \<times> event list" where
  "topWall g p =
     (if py p < wallTop g p
      then (if px p > goalLeft g \<and> px p < goalRight g
            then Inl Player
            else Inr (p\<lparr>py := wallTop g p, vy := - vy p * 0.9\<rparr>, [Play ''wall'']))
      else Inr (p, []))"

definition bottomWall :: "game \<Rightarrow> body \<Rightarrow> scorer + body \<times> event list" where
  "bottomWall g p =
     (if py p > wallBottom g p
      then (if px p > goalLeft g \<and> px p < goalRight g
            then Inl Opponent
            else Inr (p\<lparr>py := wallBottom g p, vy := - vy p * 0.9\<rparr>, [Play ''wall'']))
      else Inr (p, []))"

definition checkPaddleCollision :: "body \<Rightarrow> paddle \<Rightarrow> body \<times> event list" where
  "checkPaddleCollision p pad =
     (let dx = px p - px pad;
          dy = py p - py pad;
          dist = sqrt (dx * dx + dy * dy);
          minDist = radius p + radius pad
      in if dist < minDist \<and> dist > 0
         then
           (let nx = dx / dist;
                ny = dy / dist;
                overlap = minDist - dist;
                p1 = p\<lparr>px := px p + nx * overlap, py := py p + ny * overlap\<rparr>;
                relVx = vx p1 - vx pad;
                relVy = vy p1 - vy pad;
                relVelNormal = relVx * nx + relVy * ny
            in if relVelNormal < 0
               then
                 (let restitution = 1.1;
                      p2 = p1\<lparr>vx := vx p1 - (1 + restitution) * relVelNormal * nx,
                              vy := vy p1 - (1 + restitution) * relVelNormal * ny\<rparr>;
                      p3 = p2\<lparr>vx := vx p2 + vx pad * 0.5, vy := vy p2 + vy pad * 0.5\<rparr>
                  in (p3, [Play ''hit'']))
               else (p1, []))
         else (p, []))"

definition gameOver :: "bool \<Rightarrow> game \<Rightarrow> game \<times> event list" where
  "gameOver playerWon g =
     (g\<lparr>isRunning := False\<rparr>,
      (case animationId g of
         Some i \<Rightarrow> (if i \<noteq> 0 then [CancelAnimationFrame i] else [])
       | None \<Rightarrow> [])
      @ [Play (if playerWon then ''win'' else ''lose''),
         ShowGameOver playerWon (player (score g)) (opponent (score g))])"

definition bump :: "scorer \<Rightarrow> scoreboard \<Rightarrow> scoreboard" where
  "bump s sc =
     (case s of
        Player \<Rightarrow> sc\<lparr>player := player sc + 1\<rparr>
      | Opponent \<Rightarrow> sc\<lparr>opponent := opponent sc + 1\<rparr>)"

definition points :: "scorer \<Rightarrow> scoreboard \<Rightarrow> nat" where
  "points s sc = (case s of Player \<Rightarrow> player sc | Opponent \<Rightarrow> opponent sc)"

definition goalScored :: "scorer \<Rightarrow> game \<Rightarrow> game \<times> event list" where
  "goalScored s g =
     (let g1 = g\<lparr>score := bump s (score g)\<rparr>;
          ev = [Play ''goal'', ShowGoalAnnouncement,
                UpdateScore (player (score g1)) (opponent (score g1))]
      in if points s (score g1) \<ge> winningScore
         then (let (g2, ev2) = gameOver (s = Player) g1 in (g2, ev @ ev2))
         else (g1, ev @ [SetTimeout (ResetPuckTimer (s = Opponent)) 1500]))"

definition snapshotOf :: "body \<Rightarrow> scoreboard \<Rightarrow> snapshot" where
  "snapshotOf p sc = \<lparr>spuck = \<lparr>px = px p, py = py p, vx = vx p, vy = vy p\<rparr>, sscore = sc\<rparr>"

text \<open>
  The part of \<open>updatePhysics\<close> up to the end walls: trail, integration, friction, speed
  clamp and the side walls.
\<close>

definition beforeEndWalls :: "game \<Rightarrow> real \<Rightarrow> body \<Rightarrow> body \<times> event list" where
  "beforeEndWalls g dt p = sideWalls g (clampSpeed (applyFriction dt (movePuck dt p)))"

definition updatePhysics ::
  "env \<Rightarrow> network \<Rightarrow> game \<Rightarrow> real \<Rightarrow> error + game \<times> network \<times> event list" where
  "updatePhysics e n g dt =
     (case puck g of
        None \<Rightarrow> Inl TypeError
      | Some p0 \<Rightarrow>
          (let tr = pushTrail (px p0, py p0) (puckTrail g);
               (p1, ev1) = beforeEndWalls g dt p0
           in case topWall g p1 of
                Inl s \<Rightarrow>
                  (let (g', ev) = goalScored s (g\<lparr>puck := Some p1, puckTrail := tr\<rparr>)
                   in Inr (g', n, ev1 @ ev))
              | Inr (p2, ev2) \<Rightarrow>
                  (case bottomWall g p2 of
                     Inl s \<Rightarrow>
                       (let (g', ev) = goalScored s (g\<lparr>puck := Some p2, puckTrail := tr\<rparr>)
                        in Inr (g', n, ev1 @ ev2 @ ev))
                   | Inr (p3, ev3) \<Rightarrow>
                       (case playerPaddle g of
                          None \<Rightarrow> Inl TypeError
                        | Some pp \<Rightarrow>
                            (let (p4, ev4) = checkPaddleCollision p3 pp
                             in case opponentPaddle g of
                                  None \<Rightarrow> Inl TypeError
                                | Some op \<Rightarrow>
                                    (let (p5, ev5) = checkPaddleCollision p4 op;
                                         g' = g\<lparr>puck := Some p5, puckTrail := tr\<rparr>;
                                         (n', ev6) =
                                           (if isConnected n
                                            then sendGameState e n (snapshotOf p5 (score g'))
                                            else (n, []))
                                     in Inr (g', n', ev1 @ ev2 @ ev3 @ ev4 @ ev5 @ ev6)))))))"

section \<open>Game: puck reset, the loop and the start of a match\<close>

definition resetPuck :: "env \<Rightarrow> network \<Rightarrow> game \<Rightarrow> bool \<Rightarrow> error + game \<times> network \<times> event list" where
  "resetPuck e n g towardPlayer =
     (case puck g of
        None \<Rightarrow> Inl TypeError
      | Some p \<Rightarrow>
          (let angle = (rnd e - 0.5) * pi / 2;
               speed0 = 8;
               p' = p\<lparr>px := width g / 2, py := height g / 2,
                      vx := sin angle * speed0,
                      vy := cos angle * speed0 * (if towardPlayer then 1 else - 1)\<rparr>;
               g' = g\<lparr>puck := Some p', puckTrail := []\<rparr>;
               (n', ev) =
                 (if isConnected n
                  then sendGameState e n (snapshotOf p' (score g'))
                  else (n, []))
           in Inr (g', n', ev)))"

text \<open>
  One callback of \<open>requestAnimationFrame\<close> (or the direct call from \<open>start\<close>);
  \<open>currentTime\<close> is the argument of \<open>gameLoop\<close>.
\<close>

definition deltaTime :: "game \<Rightarrow> real \<Rightarrow> real" where
  "deltaTime g currentTime = min ((currentTime - lastTime g) / 16.67) 2"

definition gameLoop :: "env \<Rightarrow> network \<Rightarrow> game \<Rightarrow> real \<Rightarrow> error + game \<times> network \<times> event list" where
  "gameLoop e n g currentTime =
     (if \<not> isRunning g then Inr (g, n, [])
      else
        (let dt = deltaTime g currentTime;
             g1 = g\<lparr>lastTime := currentTime\<rparr>
         in case (if isHost g1 then updatePhysics e n g1 dt else Inr (g1, n, [])) of
              Inl err \<Rightarrow> Inl err
            | Inr (g2, n2, ev) \<Rightarrow>
                Inr (g2\<lparr>animationId := Some (rafId e)\<rparr>, n2,
                     ev @ [Render, RequestAnimationFrame])))"



text \<open>
  What the host runs between two starts: animation frames and the timers registered by
  \<open>goalScored\<close>, whose callback is \<open>if (this.isRunning) this.resetPuck(...)\<close>.
\<close>

datatype hostInput = Frame env real | TimerFires env timer

fun hostStep :: "hostInput \<Rightarrow> network \<Rightarrow> game \<Rightarrow> error + game \<times> network \<times> event list" where
  "hostStep (Frame e t) n g = gameLoop e n g t"
| "hostStep (TimerFires e (ResetPuckTimer towardPlayer)) n g =
     (if isRunning g then resetPuck e n g towardPlayer else Inr (g, n, []))"

fun hostRun :: "hostInput list \<Rightarrow> network \<Rightarrow> game \<Rightarrow> error + game \<times> network \<times> event list" where
  "hostRun [] n g = Inr (g, n, [])"
| "hostRun (s # ss) n g =
     (case hostStep s n g of
        Inl err \<Rightarrow> Inl err
      | Inr (g1, n1, ev1) \<Rightarrow>
          (case hostRun ss n1 g1 of
             Inl err \<Rightarrow> Inl err
           | Inr (g2, n2, ev2) \<Rightarrow> Inr (g2, n2, ev1 @ ev2)))"

section \<open>Game: state received from the network\<close>

text \<open>\<open>a || b\<close> on numbers: \<open>undefined\<close> and \<open>0\<close> are falsy.\<close>

definition orElse :: "real option \<Rightarrow> real \<Rightarrow> real" where
  "orElse a b = (case a of None \<Rightarrow> b | Some v \<Rightarrow> if v = 0 then b else v)"

definition updateOpponentPaddle :: "game \<Rightarrow> real \<Rightarrow> real \<Rightarrow> game" where
  "updateOpponentPaddle g x y =
     (case opponentPaddle g of
        None \<Rightarrow> g
      | Some op \<Rightarrow>
          (let op1 = op\<lparr>px := width g - x, py := height g - y\<rparr>;
               op2 = op1\<lparr>vx := (px op1 - orElse (lastX op1) (px op1)) * 0.3,
                          vy := (py op1 - orElse (lastY op1) (py op1)) * 0.3\<rparr>;
               op3 = op2\<lparr>lastX := Some (px op2), lastY := Some (py op2)\<rparr>
           in g\<lparr>opponentPaddle := Some op3\<rparr>))"

definition updateFromHost :: "game \<Rightarrow> snapshot \<Rightarrow> error + game \<times> event list" where
  "updateFromHost g st =
     (if isHost g then Inr (g, [])
      else case puck g of
        None \<Rightarrow> Inl TypeError
      | Some p \<Rightarrow>
          (let p' = p\<lparr>px := width g - px (spuck st), py := height g - py (spuck st),
                      vx := - vx (spuck st), vy := - vy (spuck st)\<rparr>;
               tr = pushTrail (px p', py p') (puckTrail g);
               prevPlayerScore = player (score g);
               prevOpponentScore = opponent (score g);
               sc = \<lparr>player = opponent (sscore st), opponent = player (sscore st)\<rparr>;
               g1 = g\<lparr>puck := Some p', puckTrail := tr, score := sc\<rparr>;
               ev = (if player sc > prevPlayerScore then [Play ''goal'', ShowGoalAnnouncement]
                     else if opponent sc > prevOpponentScore then [Play ''goal'', ShowGoalAnnouncement]
                     else [])
                    @ [UpdateScore (player sc) (opponent sc)]
           in if player sc \<ge> winningScore
              then (let (g2, ev2) = gameOver True g1 in Inr (g2, ev @ ev2))
              else if opponent sc \<ge> winningScore
              then (let (g2, ev2) = gameOver False g1 in Inr (g2, ev @ ev2))
              else Inr (g1, ev)))"

section \<open>Network: dispatch of incoming messages\<close>

definition handleMessage :: "env \<Rightarrow> network \<Rightarrow> game \<Rightarrow> message \<Rightarrow> error + game \<times> event list" where
  "handleMessage e n g m =
     (case m of
        Ready \<Rightarrow>
          (if isHostN n then Inr (g, send e n Start @ [StartGame True]) else Inr (g, []))
      | Start \<Rightarrow> Inr (g, [StartGame (isHostN n)])
      | Paddle x y \<Rightarrow> Inr (updateOpponentPaddle g x y, [])
      | GameState st \<Rightarrow> (if \<not> isHostN n then updateFromHost g st else Inr (g, []))
      | PlayAgain \<Rightarrow>
          (if isHostN n then Inr (g, send e n Start @ [StartGame True])
           else Inr (g, [StartGame (isHostN n)])))"

section \<open>Network: createGame as a machine over the callbacks that fire\<close>

text \<open>
  \<open>createGame\<close> returns a promise and registers callbacks on the new peer and a timer of
  60000 ms.  The model keeps the \<open>Network\<close> fields together with the state of that promise
  and steps once per callback.  \<open>resolve\<close> and \<open>reject\<close> settle a promise only while it is
  pending.  On the \<open>unavailable-id\<close> error the code destroys the peer and calls
  \<open>this.createGame().then(resolve).catch(reject)\<close>: the outer promise then settles as the
  inner one does, so the retry is the same machine on the new room code (\<open>PeerErrorFires\<close>
  carries the code that the retry draws).
\<close>

datatype rejection = Timeout | PeerError string

datatype promise = Pending | Resolved "string option" | Rejected rejection

datatype callback =
    PeerOpen
  | PeerConnection
  | ConnectionOpen
  | PeerErrorFires string string
  | TimeoutFires

definition settle :: "promise \<Rightarrow> promise \<Rightarrow> promise" where
  "settle p v = (case p of Pending \<Rightarrow> v | _ \<Rightarrow> p)"

definition initialNetwork :: network where
  "initialNetwork =
     \<lparr>connection = False, isConnected = False, isHostN = False, roomCode = None,
      lastStateSend = 0\<rparr>"

definition createGame :: "string \<Rightarrow> network \<Rightarrow> network \<times> promise" where
  "createGame code n = (n\<lparr>roomCode := Some code, isHostN := True\<rparr>, Pending)"

definition setupConnection :: "network \<Rightarrow> network" where
  "setupConnection n = n\<lparr>isConnected := True\<rparr>"

fun createGameStep :: "callback \<Rightarrow> network \<times> promise \<Rightarrow> network \<times> promise" where
  "createGameStep PeerOpen (n, p) = (n, settle p (Resolved (roomCode n)))"
| "createGameStep PeerConnection (n, p) = (n\<lparr>connection := True\<rparr>, p)"
| "createGameStep ConnectionOpen (n, p) = (setupConnection n, p)"
| "createGameStep (PeerErrorFires ty code) (n, p) =
     (if ty = ''unavailable-id''
      then (fst (createGame code n), p)
      else (n, settle p (Rejected (PeerError ty))))"
| "createGameStep TimeoutFires (n, p) =
     (if \<not> isConnected n then (n, settle p (Rejected Timeout)) else (n, p))"

definition createGameRun :: "callback list \<Rightarrow> network \<times> promise \<Rightarrow> network \<times> promise" where
  "createGameRun cs st = fold createGameStep cs st"

section \<open>The arithmetic of the engine: IEEE 754 doubles\<close>

text \<open>
  The definitions above compute over the reals.  A JavaScript number is an IEEE 754 double,
  and every arithmetic operation returns the double nearest to the exact result, ties going
  to the even significand.  That makes no difference to the branch a tick takes or to the
  expression a field is set to, but it decides whether two numbers computed in different
  ways are equal.  \<open>fl\<close> is that rounding to 53 significant bits: \<open>binade t\<close> is the binary
  exponent of \<open>t\<close>, \<open>ulp t\<close> the spacing of the doubles around \<open>t\<close>, \<open>eps\<close> the unit roundoff.
  The exponent range is left unbounded: overflow to \<open>Infinity\<close> and the subnormal numbers
  are outside the model, which rounds as the hardware does every result of magnitude
  between \<open>2\<^sup>-\<^sup>1\<^sup>0\<^sup>2\<^sup>2\<close> and \<open>2\<^sup>1\<^sup>0\<^sup>2\<^sup>4\<close>.
\<close>

definition roundEven :: "real \<Rightarrow> int" where
  "roundEven t =
     (let n = \<lfloor>t\<rfloor>
      in if t - of_int n < 1 / 2 then n
         else if t - of_int n > 1 / 2 then n + 1
         else if even n then n else n + 1)"

definition binade :: "real \<Rightarrow> int" where
  "binade t = \<lfloor>log 2 \<bar>t\<bar>\<rfloor>"

definition ulp :: "real \<Rightarrow> real" where
  "ulp t = 2 powr (of_int (binade t - 52))"

definition fl :: "real \<Rightarrow> real" where
  "fl t = (if t = 0 then 0 else of_int (roundEven (t / ulp t)) * ulp t)"

definition eps :: real where
  "eps = 1 / 2 ^ 53"


text \<open>
  \<open>updateFromHost\<close> and \<open>updateOpponentPaddle\<close> with every operation rounded.  Negation is
  exact, and so are the comparisons and the integer scores.
\<close>

definition updateOpponentPaddle64 :: "game \<Rightarrow> real \<Rightarrow> real \<Rightarrow> game" where
  "updateOpponentPaddle64 g x y =
     (case opponentPaddle g of
        None \<Rightarrow> g
      | Some op \<Rightarrow>
          (let op1 = op\<lparr>px := fl (width g - x), py := fl (height g - y)\<rparr>;
               op2 = op1\<lparr>vx := fl (fl (px op1 - orElse (lastX op1) (px op1)) * fl 0.3),
                          vy := fl (fl (py op1 - orElse (lastY op1) (py op1)) * fl 0.3)\<rparr>;
               op3 = op2\<lparr>lastX := Some (px op2), lastY := Some (py op2)\<rparr>
           in g\<lparr>opponentPaddle := Some op3\<rparr>))"

definition updateFromHost64 :: "game \<Rightarrow> snapshot \<Rightarrow> error + game \<times> event list" where
  "updateFromHost64 g st =
     (if isHost g then Inr (g, [])
      else case puck g of
        None \<Rightarrow> Inl TypeError
      | Some p \<Rightarrow>
          (let p' = p\<lparr>px := fl (width g - px (spuck st)), py := fl (height g - py (spuck st)),
                      vx := - vx (spuck st), vy := - vy (spuck st)\<rparr>;
               tr = pushTrail (px p', py p') (puckTrail g);
               prevPlayerScore = player (score g);
               prevOpponentScore = opponent (score g);
               sc = \<lparr>player = opponent (sscore st), opponent = player (sscore st)\<rparr>;
               g1 = g\<lparr>puck := Some p', puckTrail := tr, score := sc\<rparr>;
               ev = (if player sc > prevPlayerScore then [Play ''goal'', ShowGoalAnnouncement]
                     else if opponent sc > prevOpponentScore then [Play ''goal'', ShowGoalAnnouncement]
                     else [])
                    @ [UpdateScore (player sc) (opponent sc)]
           in if player sc \<ge> winningScore
              then (let (g2, ev2) = gameOver True g1 in Inr (g2, ev @ ev2))
              else if opponent sc \<ge> winningScore
              then (let (g2, ev2) = gameOver False g1 in Inr (g2, ev @ ev2))
              else Inr (g1, ev)))"

text \<open>
  The friction and clamp steps of \<open>updatePhysics\<close> with every operation rounded.
  \<open>Math.sqrt\<close> is the correctly rounded square root.  \<open>Math.pow\<close> is only required to
  approximate the power, so \<open>applyFriction64\<close> takes the function \<open>pw\<close> that the engine
  computes for it; \<open>pow64\<close> is the correctly rounded one.  \<open>friction64\<close> is the double that
  the literal \<open>0.995\<close> denotes.
\<close>

definition friction64 :: real where
  "friction64 = fl friction"

definition pow64 :: "real \<Rightarrow> real \<Rightarrow> real" where
  "pow64 b e = fl (b powr e)"

definition applyFriction64 :: "(real \<Rightarrow> real \<Rightarrow> real) \<Rightarrow> real \<Rightarrow> body \<Rightarrow> body" where
  "applyFriction64 pw dt p =
     p\<lparr>vx := fl (vx p * pw friction64 dt), vy := fl (vy p * pw friction64 dt)\<rparr>"

definition speed64 :: "body \<Rightarrow> real" where
  "speed64 p = fl (sqrt (fl (fl (vx p * vx p) + fl (vy p * vy p))))"

definition clampSpeed64 :: "body \<Rightarrow> body" where
  "clampSpeed64 p =
     (if speed64 p > maxPuckSpeed
      then p\<lparr>vx := fl (fl (vx p / speed64 p) * maxPuckSpeed),
             vy := fl (fl (vy p / speed64 p) * maxPuckSpeed)\<rparr>
      else p)"

section \<open>Vocabulary of the statements\<close>

text \<open>The test \<open>puck.x > goalLeft && puck.x < goalRight\<close> of both end walls.\<close>

definition insideGoal :: "game \<Rightarrow> body \<Rightarrow> bool" where
  "insideGoal g p \<longleftrightarrow> goalLeft g < px p \<and> px p < goalRight g"

text \<open>
  The local constants \<open>dist\<close>, \<open>nx\<close>, \<open>ny\<close> and \<open>relVelNormal\<close> of
  \<open>checkPaddleCollision\<close>, as functions of the puck and the paddle it is called with.
\<close>

definition centreDistance :: "body \<Rightarrow> paddle \<Rightarrow> real" where
  "centreDistance p pad =
     sqrt ((px p - px pad) * (px p - px pad) + (py p - py pad) * (py p - py pad))"

definition normalX :: "body \<Rightarrow> paddle \<Rightarrow> real" where
  "normalX p pad = (px p - px pad) / centreDistance p pad"

definition normalY :: "body \<Rightarrow> paddle \<Rightarrow> real" where
  "normalY p pad = (py p - py pad) / centreDistance p pad"

definition relVelNormal :: "body \<Rightarrow> paddle \<Rightarrow> real" where
  "relVelNormal p pad = (vx p - vx pad) * normalX p pad + (vy p - vy pad) * normalY p pad"

text \<open>The puck that a result of \<open>updatePhysics\<close> leaves in the game.\<close>

definition puckAfter :: "error + game \<times> network \<times> event list \<Rightarrow> body option" where
  "puckAfter r = (case r of Inl err \<Rightarrow> None | Inr (g, n, ev) \<Rightarrow> puck g)"

text \<open>
  A series of calls of \<open>sendGameState\<close>, each with its environment and payload; the log
  pairs every event with the \<open>Date.now()\<close> of the call that made it.
\<close>

fun sendLog :: "(env \<times> snapshot) list \<Rightarrow> network \<Rightarrow> (int \<times> event) list" where
  "sendLog [] n = []"
| "sendLog ((e, st) # rest) n =
     (let (n1, ev) = sendGameState e n st
      in map (Pair (dateNow e)) ev @ sendLog rest n1)"

fun isSent :: "event \<Rightarrow> bool" where
  "isSent (Sent m) = True"
| "isSent ev = False"

definition sentTimes :: "(int \<times> event) list \<Rightarrow> int list" where
  "sentTimes lg = map fst (filter (\<lambda>te. isSent (snd te)) lg)"

fun spaced :: "int list \<Rightarrow> bool" where
  "spaced [] = True"
| "spaced [t] = True"
| "spaced (t # u # ts) = (u - t \<ge> stateSendInterval \<and> spaced (u # ts))"

text \<open>Attempts every \<open>step\<close> ms from \<open>t0\<close>, \<open>k\<close> of them, on a connection that never throws.\<close>

definition attemptsEvery :: "int \<Rightarrow> int \<Rightarrow> nat \<Rightarrow> snapshot \<Rightarrow> (env \<times> snapshot) list" where
  "attemptsEvery step t0 k st =
     map (\<lambda>i. (\<lparr>dateNow = t0 + step * int i, sendThrows = False, rafId = 1, rnd = 0\<rparr>, st)) [0..<k]"



definition scoreLe :: "scoreboard \<Rightarrow> scoreboard \<Rightarrow> bool" where
  "scoreLe a b \<longleftrightarrow> player a \<le> player b \<and> opponent a \<le> opponent b"

definition mirrorScore :: "scoreboard \<Rightarrow> scoreboard" where
  "mirrorScore sc = \<lparr>player = opponent sc, opponent = player sc\<rparr>"


text \<open>
  The room code in force after a series of callbacks of \<open>createGame\<close>: the one drawn by the
  last \<open>unavailable-id\<close> retry, or the first one.
\<close>

fun lastCode :: "string \<Rightarrow> callback list \<Rightarrow> string" where
  "lastCode code [] = code"
| "lastCode code (PeerErrorFires ty c # cs) =
     (if ty = ''unavailable-id'' then lastCode c cs else lastCode code cs)"
| "lastCode code (PeerOpen # cs) = lastCode code cs"
| "lastCode code (PeerConnection # cs) = lastCode code cs"
| "lastCode code (ConnectionOpen # cs) = lastCode code cs"
| "lastCode code (TimeoutFires # cs) = lastCode code cs"

text \<open>
  A state sent, mirrored by the receiver with \<open>updateFromHost64\<close>, read back from its game
  as \<open>updatePhysics\<close> reads a state to broadcast it, and mirrored once more.
\<close>

definition roundTrip64 :: "game \<Rightarrow> snapshot \<Rightarrow> error + snapshot" where
  "roundTrip64 g st =
     (case updateFromHost64 g st of
        Inl err \<Rightarrow> Inl err
      | Inr (g1, ev1) \<Rightarrow>
          (case puck g1 of
             None \<Rightarrow> Inl TypeError
           | Some p1 \<Rightarrow>
               (case updateFromHost64 g1 (snapshotOf p1 (score g1)) of
                  Inl err \<Rightarrow> Inl err
                | Inr (g2, ev2) \<Rightarrow>
                    (case puck g2 of
                       None \<Rightarrow> Inl TypeError
                     | Some p2 \<Rightarrow> Inr (snapshotOf p2 (score g2))))))"

section \<open>A concrete table\<close>

text \<open>
  A 400 by 600 canvas as \<open>resize\<close> and \<open>start\<close> lay it out: paddle radius 32, puck radius
  20, goal width 160, wall thickness 8, the paddles 20 units off their end walls.
\<close>

definition homePaddle :: paddle where
  "homePaddle = \<lparr>px = 200, py = 540, vx = 0, vy = 0, radius = 32, lastX = None, lastY = None\<rparr>"

definition awayPaddle :: paddle where
  "awayPaddle = \<lparr>px = 200, py = 60, vx = 0, vy = 0, radius = 32, lastX = None, lastY = None\<rparr>"

definition puckAt :: "real \<Rightarrow> real \<Rightarrow> real \<Rightarrow> real \<Rightarrow> body" where
  "puckAt x y u v = \<lparr>px = x, py = y, vx = u, vy = v, radius = 20\<rparr>"

definition tableWith :: "body \<Rightarrow> scoreboard \<Rightarrow> bool \<Rightarrow> game" where
  "tableWith p sc host =
     \<lparr>width = 400, height = 600, puck = Some p, playerPaddle = Some homePaddle,
      opponentPaddle = Some awayPaddle, isRunning = True, isHost = host, score = sc,
      paddleRadius = 32, puckRadius = 20, goalWidth = 160, wallThickness = 8,
      puckTrail = [], lastTime = 0, animationId = Some 1\<rparr>"

definition linkedNetwork :: network where
  "linkedNetwork =
     \<lparr>connection = True, isConnected = True, isHostN = True, roomCode = Some ''4821'',
      lastStateSend = 0\<rparr>"

definition envAt :: "int \<Rightarrow> env" where
  "envAt t = \<lparr>dateNow = t, sendThrows = False, rafId = 2, rnd = 0.5\<rparr>"

section \<open>Square roots and scaling\<close>

lemma sqrt_scaled:
  fixes a b k :: real
  assumes "0 \<le> k"
  shows "sqrt ((a * k) * (a * k) + (b * k) * (b * k)) = k * sqrt (a * a + b * b)"
proof -
  have "(a * k) * (a * k) + (b * k) * (b * k) = (k * k) * (a * a + b * b)"
    by (simp add: algebra_simps)
  then have "sqrt ((a * k) * (a * k) + (b * k) * (b * k)) = sqrt (k * k) * sqrt (a * a + b * b)"
    by (simp add: real_sqrt_mult)
  also have "sqrt (k * k) = k"
    using assms by simp
  finally show ?thesis .
qed

lemma sqrt_is:
  fixes r s :: real
  assumes "0 \<le> r" and "r * r = s"
  shows "sqrt s = r"
  using assms by (simp add: real_sqrt_unique power2_eq_square)

lemma sqrt_less_iff_square:
  fixes r s :: real
  assumes "0 \<le> r"
  shows "sqrt s < r \<longleftrightarrow> s < r * r"
proof -
  have "sqrt (r * r) = r" using assms by simp
  then have "sqrt s < r \<longleftrightarrow> sqrt s < sqrt (r * r)" by simp
  then show ?thesis by (simp only: real_sqrt_less_iff)
qed

section \<open>The concrete table: fields and walls\<close>

lemma puckAt_fields [simp]:
  "px (puckAt x y u v) = x" "py (puckAt x y u v) = y"
  "vx (puckAt x y u v) = u" "vy (puckAt x y u v) = v" "radius (puckAt x y u v) = 20"
  by (simp_all add: puckAt_def)

lemma homePaddle_fields [simp]:
  "px homePaddle = 200" "py homePaddle = 540" "vx homePaddle = 0" "vy homePaddle = 0"
  "radius homePaddle = 32" "lastX homePaddle = None" "lastY homePaddle = None"
  by (simp_all add: homePaddle_def)

lemma awayPaddle_fields [simp]:
  "px awayPaddle = 200" "py awayPaddle = 60" "vx awayPaddle = 0" "vy awayPaddle = 0"
  "radius awayPaddle = 32" "lastX awayPaddle = None" "lastY awayPaddle = None"
  by (simp_all add: awayPaddle_def)

lemma tableWith_fields [simp]:
  "width (tableWith p sc host) = 400" "height (tableWith p sc host) = 600"
  "puck (tableWith p sc host) = Some p" "playerPaddle (tableWith p sc host) = Some homePaddle"
  "opponentPaddle (tableWith p sc host) = Some awayPaddle"
  "isRunning (tableWith p sc host) = True" "isHost (tableWith p sc host) = host"
  "score (tableWith p sc host) = sc" "wallThickness (tableWith p sc host) = 8"
  "goalWidth (tableWith p sc host) = 160" "puckTrail (tableWith p sc host) = []"
  "lastTime (tableWith p sc host) = 0" "animationId (tableWith p sc host) = Some 1"
  by (simp_all add: tableWith_def)

lemma table_walls [simp]:
  "wallTop (tableWith p sc host) (puckAt x y u v) = 28"
  "wallBottom (tableWith p sc host) (puckAt x y u v) = 572"
  "wallLeft (tableWith p sc host) (puckAt x y u v) = 28"
  "wallRight (tableWith p sc host) (puckAt x y u v) = 372"
  "goalLeft (tableWith p sc host) = 120"
  "goalRight (tableWith p sc host) = 280"
  by (simp_all add: wallTop_def wallBottom_def wallLeft_def wallRight_def goalLeft_def goalRight_def)

section \<open>Rounding to the nearest double\<close>

lemma roundEven_near:
  "\<bar>t - of_int (roundEven t)\<bar> < 1 / 2 \<or> (\<bar>t - of_int (roundEven t)\<bar> = 1 / 2 \<and> even (roundEven t))"
proof -
  have b: "of_int \<lfloor>t\<rfloor> \<le> t" "t < of_int \<lfloor>t\<rfloor> + 1" by linarith+
  consider "t - of_int \<lfloor>t\<rfloor> < 1 / 2" | "t - of_int \<lfloor>t\<rfloor> > 1 / 2"
    | "t - of_int \<lfloor>t\<rfloor> = 1 / 2" "even \<lfloor>t\<rfloor>" | "t - of_int \<lfloor>t\<rfloor> = 1 / 2" "odd \<lfloor>t\<rfloor>"
    by linarith
  then show ?thesis
  proof cases
    case 1
    then have "roundEven t = \<lfloor>t\<rfloor>" by (simp add: roundEven_def)
    then show ?thesis using 1 b by simp
  next
    case 2
    then have "roundEven t = \<lfloor>t\<rfloor> + 1" by (simp add: roundEven_def)
    then show ?thesis using 2 b by simp
  next
    case 3
    then have "roundEven t = \<lfloor>t\<rfloor>" by (simp add: roundEven_def)
    then show ?thesis using 3 b by simp
  next
    case 4
    then have "roundEven t = \<lfloor>t\<rfloor> + 1" by (simp add: roundEven_def)
    then show ?thesis using 4 b by simp
  qed
qed

lemma roundEven_unique:
  assumes "\<bar>t - of_int m\<bar> < 1 / 2 \<or> (\<bar>t - of_int m\<bar> = 1 / 2 \<and> even m)"
  shows "roundEven t = m"
proof -
  let ?k = "roundEven t"
  have k: "\<bar>t - of_int ?k\<bar> < 1 / 2 \<or> (\<bar>t - of_int ?k\<bar> = 1 / 2 \<and> even ?k)"
    by (rule roundEven_near)
  show ?thesis
  proof (rule ccontr)
    assume ne: "?k \<noteq> m"
    have d: "\<bar>real_of_int ?k - real_of_int m\<bar> \<le> \<bar>t - of_int ?k\<bar> + \<bar>t - of_int m\<bar>" by linarith
    have "\<bar>real_of_int ?k - real_of_int m\<bar> \<ge> 1"
    proof -
      have "\<bar>?k - m\<bar> \<ge> 1" using ne by linarith
      then have "real_of_int \<bar>?k - m\<bar> \<ge> 1" by linarith
      then show ?thesis by simp
    qed
    with d k assms have tie: "\<bar>t - of_int ?k\<bar> = 1 / 2" "even ?k" "\<bar>t - of_int m\<bar> = 1 / 2" "even m"
      and one: "\<bar>real_of_int ?k - real_of_int m\<bar> = 1"
      by linarith+
    from one have "\<bar>?k - m\<bar> = 1" by linarith
    then have "odd (?k - m)" by presburger
    then show False using tie(2,4) by simp
  qed
qed

lemma roundEven_of_int [simp]: "roundEven (of_int m) = m"
  by (rule roundEven_unique) simp

lemma roundEven_uminus: "roundEven (- t) = - roundEven t"
proof (rule roundEven_unique)
  have "\<bar>- t - of_int (- roundEven t)\<bar> = \<bar>t - of_int (roundEven t)\<bar>" by simp
  then show "\<bar>- t - of_int (- roundEven t)\<bar> < 1 / 2
             \<or> (\<bar>- t - of_int (- roundEven t)\<bar> = 1 / 2 \<and> even (- roundEven t))"
    using roundEven_near[of t] by simp
qed

lemma roundEven_error: "\<bar>t - of_int (roundEven t)\<bar> \<le> 1 / 2"
  using roundEven_near[of t] by linarith

lemma roundEven_mono:
  assumes "s \<le> t"
  shows "roundEven s \<le> roundEven t"
proof (rule ccontr)
  assume "\<not> roundEven s \<le> roundEven t"
  then have "roundEven t + 1 \<le> roundEven s" by simp
  then have g: "real_of_int (roundEven t) + 1 \<le> real_of_int (roundEven s)" by linarith
  have "s = t" using roundEven_error[of s] roundEven_error[of t] g assms by linarith
  then show False using \<open>\<not> roundEven s \<le> roundEven t\<close> by simp
qed

lemma roundEven_ge: "of_int a \<le> t \<Longrightarrow> a \<le> roundEven t"
  using roundEven_mono[of "of_int a" t] by simp

lemma roundEven_le: "t \<le> of_int b \<Longrightarrow> roundEven t \<le> b"
  using roundEven_mono[of t "of_int b"] by simp

lemma binade_bounds:
  assumes "t \<noteq> 0"
  shows "2 powr of_int (binade t) \<le> \<bar>t\<bar>" and "\<bar>t\<bar> < 2 powr (of_int (binade t) + 1)"
  using assms floor_log_eq_powr_iff[of "\<bar>t\<bar>" 2 "binade t"] by (simp_all add: binade_def)

lemma binade_eq:
  assumes "2 powr of_int e \<le> \<bar>t\<bar>" and "\<bar>t\<bar> < 2 powr (of_int e + 1)"
  shows "binade t = e"
proof -
  have "0 < \<bar>t\<bar>" using assms(1) powr_gt_zero[of 2 "of_int e"] by linarith
  then show ?thesis
    using assms floor_log_eq_powr_iff[of "\<bar>t\<bar>" 2 e] by (simp add: binade_def)
qed

lemma ulp_pos: "0 < ulp t"
  by (simp add: ulp_def)

lemma ulp_uminus: "ulp (- t) = ulp t"
  by (simp add: ulp_def binade_def)

lemma ulp_half: "ulp t / 2 = 2 powr of_int (binade t) / 2 ^ 53"
proof -
  have "(2::real) powr of_int (binade t - 52) = 2 powr of_int (binade t) / 2 powr 52"
    by (simp add: powr_diff)
  moreover have "(2::real) powr 52 = 2 ^ 52"
    using powr_realpow[of "2::real" 52] by simp
  ultimately show ?thesis by (simp add: ulp_def)
qed

lemma fl_error: "\<bar>fl t - t\<bar> \<le> ulp t / 2"
proof (cases "t = 0")
  case True
  then show ?thesis using ulp_pos[of t] by (simp add: fl_def)
next
  case False
  have "fl t - t = (of_int (roundEven (t / ulp t)) - t / ulp t) * ulp t"
    using False ulp_pos[of t] by (simp add: fl_def field_simps)
  then have "\<bar>fl t - t\<bar> = \<bar>t / ulp t - of_int (roundEven (t / ulp t))\<bar> * ulp t"
    using ulp_pos[of t] by (simp add: abs_mult abs_minus_commute)
  also have "\<dots> \<le> (1 / 2) * ulp t"
    using roundEven_error[of "t / ulp t"] ulp_pos[of t] by (intro mult_right_mono) simp_all
  finally show ?thesis by simp
qed

text \<open>The relative error of one rounding is at most \<open>2\<^sup>-\<^sup>5\<^sup>3\<close>.\<close>

lemma fl_relative_error: "\<bar>fl t - t\<bar> \<le> \<bar>t\<bar> / 2 ^ 53"
proof (cases "t = 0")
  case True
  then show ?thesis by (simp add: fl_def)
next
  case False
  have "\<bar>fl t - t\<bar> \<le> 2 powr of_int (binade t) / 2 ^ 53"
    using fl_error[of t] ulp_half[of t] by simp
  also have "\<dots> \<le> \<bar>t\<bar> / 2 ^ 53"
    using binade_bounds(1)[OF False] by (intro divide_right_mono) simp_all
  finally show ?thesis .
qed

lemma fl_uminus: "fl (- t) = - fl t"
  by (simp add: fl_def ulp_uminus roundEven_uminus)

lemma fl_zero [simp]: "fl 0 = 0"
  by (simp add: fl_def)

text \<open>
  Rounding inside one binade: a positive number between two consecutive powers of two is
  rounded to a multiple of the spacing of that binade, and stays between those powers.
\<close>

lemma fl_binade:
  assumes "2 powr of_int e \<le> t" and "t < 2 powr (of_int e + 1)"
  shows "fl t = of_int (roundEven (t / 2 powr of_int (e - 52))) * 2 powr of_int (e - 52)"
    and "2 powr of_int e \<le> fl t" and "fl t \<le> 2 powr (of_int e + 1)"
proof -
  have pos: "0 < t" using assms(1) powr_gt_zero[of 2 "of_int e"] by linarith
  then have a: "\<bar>t\<bar> = t" by simp
  have b: "binade t = e" using binade_eq[of e t] assms a by simp
  let ?u = "2 powr of_int (e - 52) :: real"
  have u: "ulp t = ?u" by (simp add: ulp_def b)
  show f: "fl t = of_int (roundEven (t / ?u)) * ?u"
    using pos by (simp add: fl_def u)
  have up: "0 < ?u" by simp
  have lo: "2 powr of_int e = of_int (2 ^ 52) * ?u"
    using powr_realpow[of "2::real" 52] by (simp add: powr_diff)
  have hi: "2 powr (of_int e + 1) = of_int (2 ^ 53) * ?u"
    using powr_realpow[of "2::real" 52] by (simp add: powr_diff powr_add)
  have "of_int (2 ^ 52) \<le> t / ?u" using assms(1) up unfolding lo by (simp add: field_simps)
  then have "(2 ^ 52 :: int) \<le> roundEven (t / ?u)" by (rule roundEven_ge)
  then have "real_of_int (2 ^ 52) \<le> of_int (roundEven (t / ?u))" by linarith
  then show "2 powr of_int e \<le> fl t" unfolding f lo using up by (intro mult_right_mono) simp_all
  have "t / ?u \<le> of_int (2 ^ 53)" using assms(2) up unfolding hi by (simp add: field_simps)
  then have "roundEven (t / ?u) \<le> (2 ^ 53 :: int)" by (rule roundEven_le)
  then have "of_int (roundEven (t / ?u)) \<le> real_of_int (2 ^ 53)" by linarith
  then show "fl t \<le> 2 powr (of_int e + 1)" unfolding f hi using up by (intro mult_right_mono) simp_all
qed

lemma fl_mono_pos:
  assumes "0 < s" and "s \<le> t"
  shows "fl s \<le> fl t"
proof -
  have t: "0 < t" using assms by simp
  have bs: "2 powr of_int (binade s) \<le> s" "s < 2 powr (of_int (binade s) + 1)"
    using binade_bounds[of s] assms(1) by simp_all
  have bt: "2 powr of_int (binade t) \<le> t" "t < 2 powr (of_int (binade t) + 1)"
    using binade_bounds[of t] t by simp_all
  have "(2::real) powr of_int (binade s) < 2 powr (of_int (binade t) + 1)" using bs(1) bt(2) assms(2) by linarith
  then have "of_int (binade s) < (of_int (binade t) + 1 :: real)" by simp
  then have le: "binade s \<le> binade t" by linarith
  show ?thesis
  proof (cases "binade s = binade t")
    case True
    let ?u = "2 powr of_int (binade t - 52) :: real"
    have "s / ?u \<le> t / ?u" using assms(2) by (intro divide_right_mono) simp_all
    then have "roundEven (s / ?u) \<le> roundEven (t / ?u)" by (rule roundEven_mono)
    then have "real_of_int (roundEven (s / ?u)) \<le> of_int (roundEven (t / ?u))" by linarith
    then have "of_int (roundEven (s / ?u)) * ?u \<le> of_int (roundEven (t / ?u)) * ?u"
      by (intro mult_right_mono) simp_all
    then show ?thesis
      using fl_binade(1)[OF bs] fl_binade(1)[OF bt] True by simp
  next
    case False
    then have "binade s + 1 \<le> binade t" using le by simp
    then have "(of_int (binade s) + 1 :: real) \<le> of_int (binade t)" by linarith
    then have "(2::real) powr (of_int (binade s) + 1) \<le> 2 powr of_int (binade t)" by simp
    then show ?thesis using fl_binade(3)[OF bs] fl_binade(2)[OF bt] by linarith
  qed
qed

lemma fl_nonneg: "0 \<le> t \<Longrightarrow> 0 \<le> fl t"
proof (cases "t = 0")
  case True
  then show ?thesis by simp
next
  case False
  assume "0 \<le> t"
  then have t: "0 < t" using False by simp
  have "2 powr of_int (binade t) \<le> fl t"
    using fl_binade(2)[of "binade t" t] binade_bounds[of t] t by simp
  then show ?thesis using powr_gt_zero[of 2 "of_int (binade t)"] by linarith
qed

text \<open>Rounding is monotone.\<close>

lemma fl_mono:
  assumes "s \<le> t"
  shows "fl s \<le> fl t"
proof -
  consider "0 < s" | "s \<le> 0" "0 \<le> t" | "t < 0" by linarith
  then show ?thesis
  proof cases
    case 1
    then show ?thesis using assms by (rule fl_mono_pos)
  next
    case 2
    have "0 \<le> fl (- s)" using 2(1) by (intro fl_nonneg) simp
    then have "fl s \<le> 0" by (simp add: fl_uminus)
    then show ?thesis using fl_nonneg[OF 2(2)] by linarith
  next
    case 3
    have "fl (- t) \<le> fl (- s)" using 3 assms by (intro fl_mono_pos) simp_all
    then show ?thesis by (simp add: fl_uminus)
  qed
qed

text \<open>
  The value of a rounding, for magnitudes below \<open>2\<^sup>5\<^sup>3\<close>: with the spacing \<open>1 / 2\<^sup>j\<close> of
  the binade of \<open>t\<close>, the result is the multiple of the spacing nearest to \<open>t\<close>.
\<close>

lemma fl_value:
  fixes j :: nat
  assumes "2 ^ 52 \<le> \<bar>t\<bar> * 2 ^ j" and "\<bar>t\<bar> * 2 ^ j < 2 ^ 53"
    and "\<bar>t * 2 ^ j - of_int m\<bar> < 1 / 2 \<or> (\<bar>t * 2 ^ j - of_int m\<bar> = 1 / 2 \<and> even m)"
  shows "fl t = of_int m / 2 ^ j"
proof -
  have pj: "(2::real) powr of_int (int j) = 2 ^ j" using powr_realpow[of "2::real" j] by simp
  have p52: "(2::real) powr 52 = 2 ^ 52" using powr_realpow[of "2::real" 52] by simp
  have e1: "(2::real) powr of_int (52 - int j) = 2 ^ 52 / 2 ^ j"
    using pj p52 by (simp add: powr_diff)
  have e2: "(2::real) powr (of_int (52 - int j) + 1) = 2 ^ 53 / 2 ^ j"
    using pj p52 by (simp add: powr_diff powr_add)
  have lo: "2 powr of_int (52 - int j) \<le> \<bar>t\<bar>" unfolding e1 using assms(1) by (simp add: field_simps)
  have hi: "\<bar>t\<bar> < 2 powr (of_int (52 - int j) + 1)" unfolding e2 using assms(2) by (simp add: field_simps)
  have b: "binade t = 52 - int j" by (rule binade_eq[OF lo hi])
  have u: "ulp t = 1 / 2 ^ j" using pj by (simp add: ulp_def b powr_minus field_simps)
  have t0: "t \<noteq> 0" using assms(1) by auto
  have "roundEven (t * 2 ^ j) = m" using assms(3) by (intro roundEven_unique) simp
  then show ?thesis using t0 by (simp add: fl_def u)
qed

lemma fl_exact:
  fixes j :: nat
  assumes "2 ^ 52 \<le> \<bar>t\<bar> * 2 ^ j" and "\<bar>t\<bar> * 2 ^ j < 2 ^ 53" and "t * 2 ^ j = of_int m"
  shows "fl t = t"
proof -
  have "fl t = of_int m / 2 ^ j" using assms by (intro fl_value) simp_all
  moreover have "t = of_int m / 2 ^ j" using assms(3) by (simp add: eq_divide_eq)
  ultimately show ?thesis by simp
qed

lemma eps_bounds: "0 < eps" "eps < 1" "0 < 1 - eps" "1 \<le> 1 + eps" "1 - eps \<le> 1"
  by (simp_all add: eps_def)

lemma fl_abs_error: "\<bar>fl t - t\<bar> \<le> eps * \<bar>t\<bar>"
  using fl_relative_error[of t] by (simp add: eps_def)

lemma fl_abs_bounds:
  "(1 - eps) * \<bar>t\<bar> \<le> \<bar>fl t\<bar>" "\<bar>fl t\<bar> \<le> (1 + eps) * \<bar>t\<bar>"
  using fl_abs_error[of t] by (simp_all add: algebra_simps)

lemma fl_bounds:
  assumes "0 \<le> t"
  shows "(1 - eps) * t \<le> fl t" "fl t \<le> (1 + eps) * t"
  using fl_abs_bounds[of t] fl_nonneg[OF assms] assms by simp_all

text \<open>The computed length \<open>Math.sqrt(a * a + b * b)\<close> against the exact one.\<close>

lemma norm64_bounds:
  "(1 - eps)\<^sup>2 * sqrt (a * a + b * b) \<le> fl (sqrt (fl (fl (a * a) + fl (b * b))))"
  "fl (sqrt (fl (fl (a * a) + fl (b * b)))) \<le> (1 + eps)\<^sup>2 * sqrt (a * a + b * b)"
proof -
  let ?T = "a * a + b * b"
  let ?A = "fl (a * a)" and ?B = "fl (b * b)"
  let ?C = "fl (?A + ?B)"
  have a0: "0 \<le> a * a" "0 \<le> b * b" by simp_all
  have T0: "0 \<le> ?T" by simp
  have A: "(1 - eps) * (a * a) \<le> ?A" "?A \<le> (1 + eps) * (a * a)" using fl_bounds[OF a0(1)] by simp_all
  have B: "(1 - eps) * (b * b) \<le> ?B" "?B \<le> (1 + eps) * (b * b)" using fl_bounds[OF a0(2)] by simp_all
  have AB0: "0 \<le> ?A + ?B" using fl_nonneg[OF a0(1)] fl_nonneg[OF a0(2)] by simp
  have AB: "(1 - eps) * ?T \<le> ?A + ?B" "?A + ?B \<le> (1 + eps) * ?T"
    using A B by (simp_all add: algebra_simps)
  have C1: "(1 - eps) * ((1 - eps) * ?T) \<le> ?C"
  proof -
    have "(1 - eps) * ((1 - eps) * ?T) \<le> (1 - eps) * (?A + ?B)"
      using AB(1) eps_bounds(3) by (intro mult_left_mono) simp_all
    also have "\<dots> \<le> ?C" by (rule fl_bounds(1)[OF AB0])
    finally show ?thesis .
  qed
  have C2: "?C \<le> (1 + eps) * ((1 + eps) * ?T)"
  proof -
    have "?C \<le> (1 + eps) * (?A + ?B)" by (rule fl_bounds(2)[OF AB0])
    also have "\<dots> \<le> (1 + eps) * ((1 + eps) * ?T)"
      using AB(2) eps_bounds(4) by (intro mult_left_mono) simp_all
    finally show ?thesis .
  qed
  have s1: "sqrt ((1 - eps) * ((1 - eps) * ?T)) = (1 - eps) * sqrt ?T"
    using eps_bounds(3) by (simp add: real_sqrt_mult)
  have s2: "sqrt ((1 + eps) * ((1 + eps) * ?T)) = (1 + eps) * sqrt ?T"
    using eps_bounds(4) by (simp add: real_sqrt_mult)
  have S1: "(1 - eps) * sqrt ?T \<le> sqrt ?C" using real_sqrt_le_mono[OF C1] unfolding s1 .
  have S2: "sqrt ?C \<le> (1 + eps) * sqrt ?T" using real_sqrt_le_mono[OF C2] unfolding s2 .
  have q0: "0 \<le> sqrt ?C" using fl_nonneg[OF AB0] by simp
  have "(1 - eps) * ((1 - eps) * sqrt ?T) \<le> (1 - eps) * sqrt ?C"
    using S1 eps_bounds(3) by (intro mult_left_mono) simp_all
  also have "\<dots> \<le> fl (sqrt ?C)" by (rule fl_bounds(1)[OF q0])
  finally show "(1 - eps)\<^sup>2 * sqrt ?T \<le> fl (sqrt ?C)" by (simp add: power2_eq_square algebra_simps)
  have "fl (sqrt ?C) \<le> (1 + eps) * sqrt ?C" by (rule fl_bounds(2)[OF q0])
  also have "\<dots> \<le> (1 + eps) * ((1 + eps) * sqrt ?T)"
    using S2 eps_bounds(4) by (intro mult_left_mono) simp_all
  finally show "fl (sqrt ?C) \<le> (1 + eps)\<^sup>2 * sqrt ?T" by (simp add: power2_eq_square algebra_simps)
qed

text \<open>A double is a number that rounding leaves alone; rounding never crosses one.\<close>

lemma fl_abs_le:
  assumes "fl d = d" and "\<bar>t\<bar> \<le> \<bar>d\<bar>"
  shows "\<bar>fl t\<bar> \<le> \<bar>d\<bar>"
proof -
  have ad: "fl \<bar>d\<bar> = \<bar>d\<bar>" using assms(1) by (cases "0 \<le> d") (simp_all add: fl_uminus)
  have "fl \<bar>t\<bar> \<le> fl \<bar>d\<bar>" using assms(2) by (rule fl_mono)
  moreover have "\<bar>fl t\<bar> = fl \<bar>t\<bar>"
  proof (cases "0 \<le> t")
    case True
    then show ?thesis using fl_nonneg[OF True] by simp
  next
    case False
    then have "0 \<le> fl (- t)" by (intro fl_nonneg) simp
    then show ?thesis using False by (simp add: fl_uminus)
  qed
  ultimately show ?thesis using ad by simp
qed

lemma fl_square_mono:
  assumes "\<bar>a'\<bar> \<le> \<bar>a\<bar>"
  shows "fl (a' * a') \<le> fl (a * a)"
proof -
  have "\<bar>a'\<bar> * \<bar>a'\<bar> \<le> \<bar>a\<bar> * \<bar>a\<bar>" using assms by (intro mult_mono) simp_all
  then have "a' * a' \<le> a * a" by simp
  then show ?thesis by (rule fl_mono)
qed

lemma norm64_mono:
  assumes "\<bar>a'\<bar> \<le> \<bar>a\<bar>" and "\<bar>b'\<bar> \<le> \<bar>b\<bar>"
  shows "fl (sqrt (fl (fl (a' * a') + fl (b' * b')))) \<le> fl (sqrt (fl (fl (a * a) + fl (b * b))))"
proof -
  have "fl (a' * a') + fl (b' * b') \<le> fl (a * a) + fl (b * b)"
    using fl_square_mono[OF assms(1)] fl_square_mono[OF assms(2)] by simp
  then have "fl (fl (a' * a') + fl (b' * b')) \<le> fl (fl (a * a) + fl (b * b))" by (rule fl_mono)
  then have "sqrt (fl (fl (a' * a') + fl (b' * b'))) \<le> sqrt (fl (fl (a * a) + fl (b * b)))"
    by (rule real_sqrt_le_mono)
  then show ?thesis by (rule fl_mono)
qed

lemma norm_mono:
  assumes "\<bar>a'\<bar> \<le> \<bar>a\<bar>" and "\<bar>b'\<bar> \<le> \<bar>b\<bar>"
  shows "sqrt (a' * a' + b' * b') \<le> sqrt (a * a + b * b)"
proof -
  have "\<bar>a'\<bar> * \<bar>a'\<bar> \<le> \<bar>a\<bar> * \<bar>a\<bar>" "\<bar>b'\<bar> * \<bar>b'\<bar> \<le> \<bar>b\<bar> * \<bar>b\<bar>"
    using assms by (intro mult_mono; simp)+
  then have "a' * a' + b' * b' \<le> a * a + b * b" by simp
  then show ?thesis by (rule real_sqrt_le_mono)
qed

text \<open>The rescaling \<open>(v / s) * m\<close> of one component, as computed, against the exact one.\<close>

lemma rescale64_bounds:
  assumes "0 < s" and "0 \<le> m"
  shows "(1 - eps)\<^sup>2 * (m / s * \<bar>v\<bar>) \<le> \<bar>fl (fl (v / s) * m)\<bar>"
    and "\<bar>fl (fl (v / s) * m)\<bar> \<le> (1 + eps)\<^sup>2 * (m / s * \<bar>v\<bar>)"
proof -
  define w where "w = \<bar>v / s\<bar>"
  define Q where "Q = \<bar>fl (v / s)\<bar>"
  define R where "R = \<bar>fl (fl (v / s) * m)\<bar>"
  have q: "(1 - eps) * w \<le> Q" "Q \<le> (1 + eps) * w"
    unfolding w_def Q_def by (rule fl_abs_bounds)+
  have qm: "\<bar>fl (v / s) * m\<bar> = Q * m" using assms(2) by (simp add: abs_mult Q_def)
  have r: "(1 - eps) * (Q * m) \<le> R" "R \<le> (1 + eps) * (Q * m)"
    unfolding R_def qm[symmetric] by (rule fl_abs_bounds)+
  have "\<bar>s\<bar> = s" using assms(1) by simp
  then have "\<bar>v / s\<bar> = \<bar>v\<bar> / s" by (simp only: abs_divide)
  moreover have "\<bar>v\<bar> / s * m = m / s * \<bar>v\<bar>" by (simp add: field_simps)
  ultimately have e: "w * m = m / s * \<bar>v\<bar>" unfolding w_def by (simp only:)
  have "(1 - eps) * w * m \<le> Q * m" by (rule mult_right_mono[OF q(1) assms(2)])
  then have "(1 - eps) * ((1 - eps) * w * m) \<le> (1 - eps) * (Q * m)"
    using eps_bounds(3) by (intro mult_left_mono) simp_all
  also have "\<dots> \<le> R" by (rule r(1))
  finally have "(1 - eps) * ((1 - eps) * (w * m)) \<le> R" by (simp only: mult.assoc)
  then show "(1 - eps)\<^sup>2 * (m / s * \<bar>v\<bar>) \<le> \<bar>fl (fl (v / s) * m)\<bar>"
    unfolding e R_def by (simp only: power2_eq_square mult.assoc)
  have "Q * m \<le> (1 + eps) * w * m" by (rule mult_right_mono[OF q(2) assms(2)])
  then have "(1 + eps) * (Q * m) \<le> (1 + eps) * ((1 + eps) * w * m)"
    using eps_bounds(4) by (intro mult_left_mono) simp_all
  with r(2) have "R \<le> (1 + eps) * ((1 + eps) * w * m)" by linarith
  then have "R \<le> (1 + eps) * ((1 + eps) * (w * m))" by (simp only: mult.assoc)
  then show "\<bar>fl (fl (v / s) * m)\<bar> \<le> (1 + eps)\<^sup>2 * (m / s * \<bar>v\<bar>)"
    unfolding e R_def by (simp only: power2_eq_square mult.assoc)
qed

text \<open>The same rescaling against the exact product: the relative error is at most 3 eps.\<close>

lemma rescale64_error:
  assumes "0 < s" and "0 \<le> m"
  shows "\<bar>fl (fl (v / s) * m) - m / s * v\<bar> \<le> 3 * eps * \<bar>m / s * v\<bar>"
proof -
  define q where "q = v / s"
  define q1 where "q1 = fl q"
  define r1 where "r1 = fl (q1 * m)"
  have a: "\<bar>q1 - q\<bar> \<le> eps * \<bar>q\<bar>" unfolding q1_def by (rule fl_abs_error)
  have b: "\<bar>r1 - q1 * m\<bar> \<le> eps * \<bar>q1 * m\<bar>" unfolding r1_def by (rule fl_abs_error)
  have q1b: "\<bar>q1\<bar> \<le> (1 + eps) * \<bar>q\<bar>" unfolding q1_def by (rule fl_abs_bounds(2))
  have m1: "\<bar>q1 * m\<bar> = \<bar>q1\<bar> * m" "\<bar>q * m\<bar> = \<bar>q\<bar> * m" using assms(2) by (simp_all add: abs_mult)
  have "\<bar>q1\<bar> * m \<le> (1 + eps) * \<bar>q\<bar> * m" by (rule mult_right_mono[OF q1b assms(2)])
  then have "eps * (\<bar>q1\<bar> * m) \<le> eps * ((1 + eps) * \<bar>q\<bar> * m)"
    using eps_bounds(1) by (intro mult_left_mono) simp_all
  then have b': "\<bar>r1 - q1 * m\<bar> \<le> eps * ((1 + eps) * \<bar>q\<bar> * m)" using b unfolding m1 by linarith
  have "\<bar>(q1 - q) * m\<bar> = \<bar>q1 - q\<bar> * m" using assms(2) by (simp add: abs_mult)
  moreover have "\<bar>q1 - q\<bar> * m \<le> eps * \<bar>q\<bar> * m" by (rule mult_right_mono[OF a assms(2)])
  ultimately have a': "\<bar>q1 * m - q * m\<bar> \<le> eps * \<bar>q\<bar> * m" by (simp add: algebra_simps)
  have "\<bar>r1 - q * m\<bar> \<le> \<bar>r1 - q1 * m\<bar> + \<bar>q1 * m - q * m\<bar>" by linarith
  also have "\<dots> \<le> eps * ((1 + eps) * \<bar>q\<bar> * m) + eps * \<bar>q\<bar> * m" using a' b' by linarith
  also have "\<dots> = (2 + eps) * eps * (\<bar>q\<bar> * m)" by (simp add: algebra_simps)
  also have "\<dots> \<le> 3 * eps * (\<bar>q\<bar> * m)"
  proof -
    have "(2 + eps) * eps \<le> 3 * eps" using eps_bounds(1,2) by (intro mult_right_mono) simp_all
    moreover have "0 \<le> \<bar>q\<bar> * m" using assms(2) by simp
    ultimately show ?thesis by (rule mult_right_mono)
  qed
  finally have f: "\<bar>r1 - q * m\<bar> \<le> 3 * eps * \<bar>q * m\<bar>" unfolding m1 .
  have "q * m = m / s * v" by (simp add: q_def)
  then have "\<bar>r1 - m / s * v\<bar> \<le> 3 * eps * \<bar>m / s * v\<bar>" using f by (simp only:)
  then show ?thesis unfolding r1_def q1_def q_def .
qed

lemma norm_scaled:
  assumes "0 \<le> c"
  shows "sqrt ((c * a) * (c * a) + (c * b) * (c * b)) = c * sqrt (a * a + b * b)"
proof -
  have "(c * a) * (c * a) + (c * b) * (c * b) = c\<^sup>2 * (a * a + b * b)"
    by (simp add: power2_eq_square algebra_simps)
  then show ?thesis using assms by (simp add: real_sqrt_mult)
qed

lemma eps_ratios:
  "(1 + eps)\<^sup>2 / (1 - eps)\<^sup>2 \<le> 1 + 5 * eps"
  "1 - 5 * eps \<le> (1 - eps)\<^sup>2 / (1 + eps)\<^sup>2"
  "(1 + eps)\<^sup>2 * ((1 + eps)\<^sup>2 / (1 - eps)\<^sup>2) \<le> 1 + 7 * eps"
  "1 - 7 * eps \<le> (1 - eps)\<^sup>2 * ((1 - eps)\<^sup>2 / (1 + eps)\<^sup>2)"
  by (simp_all add: eps_def power2_eq_square field_simps)

text \<open>
  The clamp in doubles: with \<open>s\<close> the computed speed and both components rescaled by
  \<open>(v / s) * m\<close>, the exact length of the new velocity and its computed length are
  within a few roundings of \<open>m\<close>.
\<close>

lemma clamp64_bounds:
  assumes s: "s = fl (sqrt (fl (fl (a * a) + fl (b * b))))"
    and m: "0 < m" "m < s"
    and a': "a' = fl (fl (a / s) * m)" and b': "b' = fl (fl (b / s) * m)"
  shows "(1 - eps)\<^sup>2 / (1 + eps)\<^sup>2 * m \<le> sqrt (a' * a' + b' * b')"
    and "sqrt (a' * a' + b' * b') \<le> (1 + eps)\<^sup>2 / (1 - eps)\<^sup>2 * m"
    and "(1 - eps)\<^sup>2 * ((1 - eps)\<^sup>2 / (1 + eps)\<^sup>2) * m
           \<le> fl (sqrt (fl (fl (a' * a') + fl (b' * b'))))"
    and "fl (sqrt (fl (fl (a' * a') + fl (b' * b'))))
           \<le> (1 + eps)\<^sup>2 * ((1 + eps)\<^sup>2 / (1 - eps)\<^sup>2) * m"
proof -
  define S where "S = sqrt (a * a + b * b)"
  define k1 where "k1 = (1 - eps)\<^sup>2"
  define k2 where "k2 = (1 + eps)\<^sup>2"
  have k: "0 < k1" "0 < k2" using eps_bounds by (simp_all add: k1_def k2_def)
  have sS: "k1 * S \<le> s" "s \<le> k2 * S"
    unfolding s S_def k1_def k2_def by (rule norm64_bounds)+
  have s0: "0 < s" using m by linarith
  have S0: "0 < S"
  proof (rule ccontr)
    assume "\<not> 0 < S"
    then have "k2 * S \<le> 0" using k(2) by (simp add: mult_le_0_iff)
    then show False using sS(2) s0 by linarith
  qed
  have m0: "0 \<le> m" using m(1) by simp
  define c1 where "c1 = k1 * (m / s)"
  define c2 where "c2 = k2 * (m / s)"
  have c: "0 \<le> c1" "0 \<le> c2" using k m0 s0 by (simp_all add: c1_def c2_def)
  have al: "c1 * \<bar>a\<bar> \<le> \<bar>a'\<bar>" and au: "\<bar>a'\<bar> \<le> c2 * \<bar>a\<bar>"
    using rescale64_bounds[OF s0 m0, of a] unfolding a' c1_def c2_def k1_def k2_def
    by (simp_all only: mult.assoc)
  have bl: "c1 * \<bar>b\<bar> \<le> \<bar>b'\<bar>" and bu: "\<bar>b'\<bar> \<le> c2 * \<bar>b\<bar>"
    using rescale64_bounds[OF s0 m0, of b] unfolding b' c1_def c2_def k1_def k2_def
    by (simp_all only: mult.assoc)
  have "sqrt ((c1 * a) * (c1 * a) + (c1 * b) * (c1 * b)) \<le> sqrt (a' * a' + b' * b')"
    using al bl c(1) by (intro norm_mono) (simp_all add: abs_mult)
  then have lo: "c1 * S \<le> sqrt (a' * a' + b' * b')"
    unfolding norm_scaled[OF c(1)] S_def .
  have "sqrt (a' * a' + b' * b') \<le> sqrt ((c2 * a) * (c2 * a) + (c2 * b) * (c2 * b))"
    using au bu c(2) by (intro norm_mono) (simp_all add: abs_mult)
  then have hi: "sqrt (a' * a' + b' * b') \<le> c2 * S"
    unfolding norm_scaled[OF c(2)] S_def .
  have r1: "1 / k2 \<le> S / s"
    using sS(2) s0 k(2) by (simp add: field_simps)
  have r2: "S / s \<le> 1 / k1"
    using sS(1) s0 k(1) by (simp add: field_simps)
  have "k1 / k2 * m = (k1 * m) * (1 / k2)" by simp
  also have "\<dots> \<le> (k1 * m) * (S / s)" using r1 k(1) m0 by (intro mult_left_mono) simp_all
  also have "\<dots> = c1 * S" by (simp add: c1_def)
  finally have lo': "k1 / k2 * m \<le> c1 * S" .
  have "c2 * S = (k2 * m) * (S / s)" by (simp add: c2_def)
  also have "\<dots> \<le> (k2 * m) * (1 / k1)" using r2 k(2) m0 by (intro mult_left_mono) simp_all
  also have "\<dots> = k2 / k1 * m" by simp
  finally have hi': "c2 * S \<le> k2 / k1 * m" .
  show e1: "(1 - eps)\<^sup>2 / (1 + eps)\<^sup>2 * m \<le> sqrt (a' * a' + b' * b')"
    using lo lo' unfolding k1_def k2_def by linarith
  show e2: "sqrt (a' * a' + b' * b') \<le> (1 + eps)\<^sup>2 / (1 - eps)\<^sup>2 * m"
    using hi hi' unfolding k1_def k2_def by linarith
  have n: "k1 * sqrt (a' * a' + b' * b') \<le> fl (sqrt (fl (fl (a' * a') + fl (b' * b'))))"
    "fl (sqrt (fl (fl (a' * a') + fl (b' * b')))) \<le> k2 * sqrt (a' * a' + b' * b')"
    unfolding k1_def k2_def by (rule norm64_bounds)+
  have "k1 * (k1 / k2 * m) \<le> k1 * sqrt (a' * a' + b' * b')"
    using e1 k(1) unfolding k1_def k2_def by (intro mult_left_mono) simp_all
  then have "k1 * (k1 / k2) * m \<le> fl (sqrt (fl (fl (a' * a') + fl (b' * b'))))"
    using n(1) by (simp only: mult.assoc)
  then show "(1 - eps)\<^sup>2 * ((1 - eps)\<^sup>2 / (1 + eps)\<^sup>2) * m
           \<le> fl (sqrt (fl (fl (a' * a') + fl (b' * b'))))"
    unfolding k1_def k2_def .
  have "k2 * sqrt (a' * a' + b' * b') \<le> k2 * (k2 / k1 * m)"
    using e2 k(2) unfolding k1_def k2_def by (intro mult_left_mono) simp_all
  then have "fl (sqrt (fl (fl (a' * a') + fl (b' * b')))) \<le> k2 * (k2 / k1) * m"
    using n(2) by (simp only: mult.assoc)
  then show "fl (sqrt (fl (fl (a' * a') + fl (b' * b'))))
           \<le> (1 + eps)\<^sup>2 * ((1 + eps)\<^sup>2 / (1 - eps)\<^sup>2) * m"
    unfolding k1_def k2_def .
qed

lemma clamp64_close:
  assumes s: "s = fl (sqrt (fl (fl (a * a) + fl (b * b))))"
    and m: "0 < m" "m < s"
    and a': "a' = fl (fl (a / s) * m)" and b': "b' = fl (fl (b / s) * m)"
  shows "\<bar>sqrt (a' * a' + b' * b') - m\<bar> \<le> 5 * eps * m"
    and "\<bar>fl (sqrt (fl (fl (a' * a') + fl (b' * b')))) - m\<bar> \<le> 7 * eps * m"
proof -
  note b = clamp64_bounds[OF s m a' b']
  have m0: "0 \<le> m" using m(1) by simp
  have "(1 - 5 * eps) * m \<le> (1 - eps)\<^sup>2 / (1 + eps)\<^sup>2 * m"
    using eps_ratios(2) m0 by (rule mult_right_mono)
  moreover have "(1 + eps)\<^sup>2 / (1 - eps)\<^sup>2 * m \<le> (1 + 5 * eps) * m"
    using eps_ratios(1) m0 by (rule mult_right_mono)
  ultimately show "\<bar>sqrt (a' * a' + b' * b') - m\<bar> \<le> 5 * eps * m"
    using b(1,2) by (simp add: algebra_simps abs_le_iff)
  have "(1 - 7 * eps) * m \<le> (1 - eps)\<^sup>2 * ((1 - eps)\<^sup>2 / (1 + eps)\<^sup>2) * m"
    using eps_ratios(4) m0 by (rule mult_right_mono)
  moreover have "(1 + eps)\<^sup>2 * ((1 + eps)\<^sup>2 / (1 - eps)\<^sup>2) * m \<le> (1 + 7 * eps) * m"
    using eps_ratios(3) m0 by (rule mult_right_mono)
  ultimately show "\<bar>fl (sqrt (fl (fl (a' * a') + fl (b' * b')))) - m\<bar> \<le> 7 * eps * m"
    using b(3,4) by (simp add: algebra_simps abs_le_iff)
qed

lemma fl_sqrt_value:
  fixes j :: nat
  assumes "2 ^ 52 < m" and "m < 2 ^ 53" and "0 \<le> a"
    and "(2 * of_int m - 1)\<^sup>2 < 4 * a * 4 ^ j" and "4 * a * 4 ^ j < (2 * of_int m + 1)\<^sup>2"
  shows "fl (sqrt a) = of_int m / 2 ^ j"
proof -
  have e: "sqrt (a * 4 ^ j) = sqrt a * 2 ^ j"
  proof -
    have "((2::real) ^ j)\<^sup>2 = (2 * 2) ^ j" by (simp only: power2_eq_square power_mult_distrib)
    then have "(4::real) ^ j = (2 ^ j)\<^sup>2" by simp
    then show ?thesis by (simp add: real_sqrt_mult)
  qed
  have "(of_int m - 1 / 2)\<^sup>2 < a * 4 ^ j"
    using assms(4) by (simp add: power2_eq_square algebra_simps)
  then have lo: "of_int m - 1 / 2 < sqrt a * 2 ^ j"
    using real_less_rsqrt[of "of_int m - 1 / 2" "a * 4 ^ j"] unfolding e by simp
  have m0: "(0::real) \<le> of_int m + 1 / 2" using assms(1) by simp
  have "a * 4 ^ j < (of_int m + 1 / 2)\<^sup>2"
    using assms(5) by (simp add: power2_eq_square algebra_simps)
  then have hi: "sqrt a * 2 ^ j < of_int m + 1 / 2"
    using real_less_lsqrt[OF m0, of "a * 4 ^ j"] unfolding e by simp
  have "(2::int) ^ 52 + 1 \<le> m" "m \<le> 2 ^ 53 - 1" using assms(1,2) by simp_all
  then have "real_of_int (2 ^ 52 + 1) \<le> of_int m" "real_of_int m \<le> of_int (2 ^ 53 - 1)"
    by (simp_all only: of_int_le_iff)
  then have m1: "(2::real) ^ 52 + 1 \<le> of_int m" "real_of_int m \<le> 2 ^ 53 - 1" by simp_all
  have s0: "0 \<le> sqrt a * 2 ^ j" using assms(3) by simp
  show ?thesis
  proof (rule fl_value)
    show "2 ^ 52 \<le> \<bar>sqrt a\<bar> * 2 ^ j" using lo m1(1) s0 assms(3) by simp
    show "\<bar>sqrt a\<bar> * 2 ^ j < 2 ^ 53" using hi m1(2) s0 assms(3) by simp
    show "\<bar>sqrt a * 2 ^ j - of_int m\<bar> < 1 / 2
          \<or> (\<bar>sqrt a * 2 ^ j - of_int m\<bar> = 1 / 2 \<and> even m)" using lo hi by linarith
  qed
qed

lemma fl_eq:
  fixes j :: nat
  assumes "r = of_int m / 2 ^ j" and "2 ^ 52 \<le> \<bar>t\<bar> * 2 ^ j" and "\<bar>t\<bar> * 2 ^ j < 2 ^ 53"
    and "\<bar>t * 2 ^ j - of_int m\<bar> < 1 / 2 \<or> (\<bar>t * 2 ^ j - of_int m\<bar> = 1 / 2 \<and> even m)"
  shows "fl t = r"
  unfolding assms(1) using assms(2-4) by (rule fl_value)

lemma fl_sqrt_eq:
  fixes j :: nat
  assumes "r = of_int m / 2 ^ j" and "2 ^ 52 < m" and "m < 2 ^ 53" and "0 \<le> a"
    and "(2 * of_int m - 1)\<^sup>2 < 4 * a * 4 ^ j" and "4 * a * 4 ^ j < (2 * of_int m + 1)\<^sup>2"
  shows "fl (sqrt a) = r"
  unfolding assms(1) using assms(2-6) by (rule fl_sqrt_value)

text \<open>The roundings met when the velocity (100, 1) is clamped and when 28.3 is mirrored twice.\<close>

lemma fl_sq_100: "fl (100 * 100) = 10000"
  by (rule fl_eq[where j = 39 and m = "10000 * 2 ^ 39"]) simp_all

lemma fl_sq_1: "fl (1 * 1) = 1"
  by (rule fl_eq[where j = 52 and m = "2 ^ 52"]) simp_all

lemma fl_10001: "fl (10000 + 1) = 10001"
  by (rule fl_eq[where j = 39 and m = "10001 * 2 ^ 39"]) simp_all

lemma fl_sqrt_10001: "fl (sqrt 10001) = 7037226252691635 / 2 ^ 46"
  by (rule fl_sqrt_eq[where j = 46 and m = 7037226252691635]) simp_all

lemma fl_100_over_speed: "fl (100 / (7037226252691635 / 2 ^ 46)) = 9006748928552438 / 2 ^ 53"
  by (rule fl_eq[where j = 53 and m = 9006748928552438]) simp_all

lemma fl_vx_clamped: "fl (9006748928552438 / 2 ^ 53 * 25) = 7036522600431592 / 2 ^ 48"
  by (rule fl_eq[where j = 48 and m = 7036522600431592]) simp_all

lemma fl_1_over_speed: "fl (1 / (7037226252691635 / 2 ^ 46)) = 5764319314273560 / 2 ^ 59"
  by (rule fl_eq[where j = 59 and m = 5764319314273560]) simp_all

lemma fl_vy_clamped: "fl (5764319314273560 / 2 ^ 59 * 25) = 9006748928552438 / 2 ^ 55"
  by (rule fl_eq[where j = 55 and m = 9006748928552438]) simp_all

lemma fl_sq_vx_clamped: "fl (7036522600431592 / 2 ^ 48 * (7036522600431592 / 2 ^ 48)) = 5497008438036197 / 2 ^ 43"
  by (rule fl_eq[where j = 43 and m = 5497008438036197]) simp_all

lemma fl_sq_vy_clamped: "fl (9006748928552438 / 2 ^ 55 * (9006748928552438 / 2 ^ 55)) = 9006298624878505 / 2 ^ 57"
  by (rule fl_eq[where j = 57 and m = 9006298624878505]) simp_all

lemma fl_sum_clamped: "fl (5497008438036197 / 2 ^ 43 + 9006298624878505 / 2 ^ 57) = 5497558138880001 / 2 ^ 43"
  by (rule fl_eq[where j = 43 and m = 5497558138880001]) simp_all

lemma fl_sqrt_clamped: "fl (sqrt (5497558138880001 / 2 ^ 43)) = 7036874417766401 / 2 ^ 48"
  by (rule fl_sqrt_eq[where j = 48 and m = 7036874417766401]) simp_all

lemma fl_28_3: "fl (283 / 10) = 7965741840911565 / 2 ^ 48"
  by (rule fl_eq[where j = 48 and m = 7965741840911565]) simp_all

lemma fl_mirror_28_3: "fl (400 - 7965741840911565 / 2 ^ 48) = 6539015552709427 / 2 ^ 44"
  by (rule fl_eq[where j = 44 and m = 6539015552709427]) simp_all

lemma fl_mirror_back_28_3: "fl (400 - 6539015552709427 / 2 ^ 44) = 7965741840911568 / 2 ^ 48"
  by (rule fl_eq[where j = 48 and m = 7965741840911568]) simp_all

section \<open>Friction and the speed clamp\<close>

lemma speed_applyFriction: "speed (applyFriction dt p) = friction powr dt * speed p"
  by (simp add: speed_def applyFriction_def sqrt_scaled)

lemma friction_factor_le_one: "0 \<le> dt \<Longrightarrow> friction powr dt \<le> 1"
  by (simp add: friction_def powr_le1)

text \<open>The two steps in doubles.\<close>

lemma speed64_nonneg: "0 \<le> speed64 p"
  unfolding speed64_def
  by (intro fl_nonneg real_sqrt_ge_zero fl_nonneg add_nonneg_nonneg) simp_all

lemma fl_one [simp]: "fl 1 = 1"
  by (rule fl_eq[where j = 52 and m = "2 ^ 52"]) simp_all

lemma friction64_range: "0 \<le> friction64" "friction64 \<le> 1"
proof -
  show "0 \<le> friction64" unfolding friction64_def by (rule fl_nonneg) (simp add: friction_def)
  have "fl friction \<le> fl 1" by (rule fl_mono) (simp add: friction_def)
  then show "friction64 \<le> 1" by (simp add: friction64_def)
qed

lemma pow64_range:
  assumes "0 \<le> dt"
  shows "0 \<le> pow64 friction64 dt" and "pow64 friction64 dt \<le> 1"
proof -
  show "0 \<le> pow64 friction64 dt" unfolding pow64_def by (rule fl_nonneg) simp
  have "friction64 powr dt \<le> 1" using friction64_range assms by (simp add: powr_le1)
  then have "fl (friction64 powr dt) \<le> fl 1" by (rule fl_mono)
  then show "pow64 friction64 dt \<le> 1" by (simp add: pow64_def)
qed

lemma friction64_component:
  assumes "fl v = v" and "0 \<le> f" and "f \<le> 1"
  shows "\<bar>fl (v * f)\<bar> \<le> \<bar>v\<bar>"
proof (rule fl_abs_le[OF assms(1)])
  have "\<bar>v\<bar> * f \<le> \<bar>v\<bar> * 1" using assms(3) by (intro mult_left_mono) simp_all
  then show "\<bar>v * f\<bar> \<le> \<bar>v\<bar>" using assms(2) by (simp add: abs_mult)
qed

lemma friction64_slows:
  assumes "fl (vx p) = vx p" and "fl (vy p) = vy p"
    and "0 \<le> pw friction64 dt" and "pw friction64 dt \<le> 1"
  shows "speed (applyFriction64 pw dt p) \<le> speed p"
    and "speed64 (applyFriction64 pw dt p) \<le> speed64 p"
proof -
  have a: "\<bar>fl (vx p * pw friction64 dt)\<bar> \<le> \<bar>vx p\<bar>"
    by (rule friction64_component[OF assms(1,3,4)])
  have b: "\<bar>fl (vy p * pw friction64 dt)\<bar> \<le> \<bar>vy p\<bar>"
    by (rule friction64_component[OF assms(2,3,4)])
  show "speed (applyFriction64 pw dt p) \<le> speed p"
    using norm_mono[OF a b] by (simp add: speed_def applyFriction64_def)
  show "speed64 (applyFriction64 pw dt p) \<le> speed64 p"
    using norm64_mono[OF a b] by (simp add: speed64_def applyFriction64_def)
qed

lemma clampSpeed64_fields:
  assumes "maxPuckSpeed < speed64 p"
  shows "vx (clampSpeed64 p) = fl (fl (vx p / speed64 p) * maxPuckSpeed)"
    and "vy (clampSpeed64 p) = fl (fl (vy p / speed64 p) * maxPuckSpeed)"
  using assms by (simp_all add: clampSpeed64_def)

lemma clampSpeed64_close:
  assumes "maxPuckSpeed < speed64 p"
  shows "\<bar>speed64 (clampSpeed64 p) - maxPuckSpeed\<bar> \<le> 7 * eps * maxPuckSpeed"
    and "\<bar>speed (clampSpeed64 p) - maxPuckSpeed\<bar> \<le> 5 * eps * maxPuckSpeed"
proof -
  have m: "0 < maxPuckSpeed" by (simp add: maxPuckSpeed_def)
  have s: "speed64 p = fl (sqrt (fl (fl (vx p * vx p) + fl (vy p * vy p))))"
    by (simp add: speed64_def)
  note c = clamp64_close[OF s m assms clampSpeed64_fields[OF assms]]
  show "\<bar>speed64 (clampSpeed64 p) - maxPuckSpeed\<bar> \<le> 7 * eps * maxPuckSpeed"
    using c(2) by (simp only: speed64_def)
  show "\<bar>speed (clampSpeed64 p) - maxPuckSpeed\<bar> \<le> 5 * eps * maxPuckSpeed"
    using c(1) by (simp only: speed_def)
qed

lemma clampSpeed64_direction:
  assumes "maxPuckSpeed < speed64 p"
  shows "\<bar>vx (clampSpeed64 p) - maxPuckSpeed / speed64 p * vx p\<bar>
           \<le> 3 * eps * \<bar>maxPuckSpeed / speed64 p * vx p\<bar>"
    and "\<bar>vy (clampSpeed64 p) - maxPuckSpeed / speed64 p * vy p\<bar>
           \<le> 3 * eps * \<bar>maxPuckSpeed / speed64 p * vy p\<bar>"
    and "0 < maxPuckSpeed / speed64 p"
proof -
  have m: "0 \<le> maxPuckSpeed" "0 < maxPuckSpeed" by (simp_all add: maxPuckSpeed_def)
  have s: "0 < speed64 p" using assms m(2) by linarith
  show "\<bar>vx (clampSpeed64 p) - maxPuckSpeed / speed64 p * vx p\<bar>
           \<le> 3 * eps * \<bar>maxPuckSpeed / speed64 p * vx p\<bar>"
    unfolding clampSpeed64_fields(1)[OF assms] by (rule rescale64_error[OF s m(1)])
  show "\<bar>vy (clampSpeed64 p) - maxPuckSpeed / speed64 p * vy p\<bar>
           \<le> 3 * eps * \<bar>maxPuckSpeed / speed64 p * vy p\<bar>"
    unfolding clampSpeed64_fields(2)[OF assms] by (rule rescale64_error[OF s m(1)])
  show "0 < maxPuckSpeed / speed64 p" using s m(2) by simp
qed

text \<open>The clamp of the velocity (100, 1), operation by operation.\<close>

lemma clamp_100_1_speed: "speed64 (puckAt 0 0 100 1) = 7037226252691635 / 2 ^ 46"
  unfolding speed64_def puckAt_fields fl_sq_100 fl_sq_1 fl_10001 fl_sqrt_10001 ..

lemma clamp_100_1_velocity:
  "clampSpeed64 (puckAt 0 0 100 1)
     = puckAt 0 0 (7036522600431592 / 2 ^ 48) (9006748928552438 / 2 ^ 55)"
proof -
  have g: "maxPuckSpeed < speed64 (puckAt 0 0 100 1)"
    unfolding clamp_100_1_speed by (simp add: maxPuckSpeed_def)
  have m: "maxPuckSpeed = 25" by (simp add: maxPuckSpeed_def)
  have "vx (clampSpeed64 (puckAt 0 0 100 1)) = 7036522600431592 / 2 ^ 48"
    unfolding clampSpeed64_fields(1)[OF g] clamp_100_1_speed puckAt_fields m fl_100_over_speed fl_vx_clamped ..
  moreover have "vy (clampSpeed64 (puckAt 0 0 100 1)) = 9006748928552438 / 2 ^ 55"
    unfolding clampSpeed64_fields(2)[OF g] clamp_100_1_speed puckAt_fields m fl_1_over_speed fl_vy_clamped ..
  moreover have "px (clampSpeed64 (puckAt 0 0 100 1)) = 0" "py (clampSpeed64 (puckAt 0 0 100 1)) = 0"
    "radius (clampSpeed64 (puckAt 0 0 100 1)) = 20"
    by (simp_all add: clampSpeed64_def)
  ultimately show ?thesis by (simp add: puckAt_def)
qed

lemma clamp_100_1_speed_after:
  "speed64 (puckAt 0 0 (7036522600431592 / 2 ^ 48) (9006748928552438 / 2 ^ 55))
     = 7036874417766401 / 2 ^ 48"
  unfolding speed64_def puckAt_fields fl_sq_vx_clamped fl_sq_vy_clamped fl_sum_clamped fl_sqrt_clamped ..

lemma fl_100: "fl 100 = 100"
  by (rule fl_eq[where j = 46 and m = "100 * 2 ^ 46"]) simp_all

text \<open>
  C6 as stated fails in the arithmetic of the engine: the clamp of the velocity (100, 1),
  whose computed speed is above \<open>maxPuckSpeed\<close>, leaves a velocity whose computed speed is
  \<open>25 + 2\<^sup>-\<^sup>4\<^sup>8\<close> (printed 25.000000000000004) and whose exact length is above 25 as well.
\<close>

theorem clamp_leaves_speed_above_maxPuckSpeed:
  "maxPuckSpeed < speed64 (puckAt 0 0 100 1)
   \<and> clampSpeed64 (puckAt 0 0 100 1)
       = puckAt 0 0 (7036522600431592 / 2 ^ 48) (9006748928552438 / 2 ^ 55)
   \<and> speed64 (clampSpeed64 (puckAt 0 0 100 1)) = 7036874417766401 / 2 ^ 48
   \<and> speed64 (clampSpeed64 (puckAt 0 0 100 1)) \<noteq> maxPuckSpeed
   \<and> maxPuckSpeed < speed64 (clampSpeed64 (puckAt 0 0 100 1))
   \<and> maxPuckSpeed < speed (clampSpeed64 (puckAt 0 0 100 1))"
proof -
  have a: "maxPuckSpeed < speed64 (puckAt 0 0 100 1)"
    unfolding clamp_100_1_speed by (simp add: maxPuckSpeed_def)
  have b: "speed64 (clampSpeed64 (puckAt 0 0 100 1)) = 7036874417766401 / 2 ^ 48"
    unfolding clamp_100_1_velocity by (rule clamp_100_1_speed_after)
  have c: "maxPuckSpeed < speed64 (clampSpeed64 (puckAt 0 0 100 1))"
    unfolding b by (simp add: maxPuckSpeed_def)
  have "(25::real)\<^sup>2 < 7036522600431592 / 2 ^ 48 * (7036522600431592 / 2 ^ 48)
                      + 9006748928552438 / 2 ^ 55 * (9006748928552438 / 2 ^ 55)"
    by (simp add: power2_eq_square)
  then have "25 < sqrt (7036522600431592 / 2 ^ 48 * (7036522600431592 / 2 ^ 48)
                      + 9006748928552438 / 2 ^ 55 * (9006748928552438 / 2 ^ 55))"
    by (rule real_less_rsqrt)
  then have d: "maxPuckSpeed < speed (clampSpeed64 (puckAt 0 0 100 1))"
    unfolding clamp_100_1_velocity speed_def puckAt_fields maxPuckSpeed_def .
  from c have e: "speed64 (clampSpeed64 (puckAt 0 0 100 1)) \<noteq> maxPuckSpeed" by simp
  from a clamp_100_1_velocity b e c d show ?thesis by (intro conjI)
qed

text \<open>
  C6, amended.  For doubles \<open>vx\<close>, \<open>vy\<close> and a friction factor between 0 and 1, which is what
  \<open>Math.pow(0.995, dt)\<close> gives for every \<open>dt \<ge> 0\<close> when it is correctly rounded, the
  friction step raises neither the exact length of the velocity nor its computed speed.
  When the computed speed exceeds \<open>maxPuckSpeed\<close>, the clamp step leaves a velocity whose
  computed speed is \<open>maxPuckSpeed\<close> up to rounding, within \<open>7 eps maxPuckSpeed\<close> (exact
  length within \<open>5 eps maxPuckSpeed\<close>), on either side of it; each component is the old
  one times the positive factor \<open>maxPuckSpeed / speed\<close> up to a relative error of \<open>3 eps\<close>,
  so the direction is preserved up to rounding.
\<close>

theorem friction_slows_and_clamp_is_within_rounding:
  "(fl (vx p) = vx p \<and> fl (vy p) = vy p \<and> 0 \<le> pw friction64 dt \<and> pw friction64 dt \<le> 1
      \<longrightarrow> speed (applyFriction64 pw dt p) \<le> speed p
        \<and> speed64 (applyFriction64 pw dt p) \<le> speed64 p)
   \<and> (0 \<le> dt \<longrightarrow> 0 \<le> pow64 friction64 dt \<and> pow64 friction64 dt \<le> 1)
   \<and> (maxPuckSpeed < speed64 p
      \<longrightarrow> \<bar>speed64 (clampSpeed64 p) - maxPuckSpeed\<bar> \<le> 7 * eps * maxPuckSpeed
        \<and> \<bar>speed (clampSpeed64 p) - maxPuckSpeed\<bar> \<le> 5 * eps * maxPuckSpeed
        \<and> \<bar>vx (clampSpeed64 p) - maxPuckSpeed / speed64 p * vx p\<bar>
             \<le> 3 * eps * \<bar>maxPuckSpeed / speed64 p * vx p\<bar>
        \<and> \<bar>vy (clampSpeed64 p) - maxPuckSpeed / speed64 p * vy p\<bar>
             \<le> 3 * eps * \<bar>maxPuckSpeed / speed64 p * vy p\<bar>
        \<and> 0 < maxPuckSpeed / speed64 p)"
proof -
  have a: "fl (vx p) = vx p \<and> fl (vy p) = vy p \<and> 0 \<le> pw friction64 dt \<and> pw friction64 dt \<le> 1
      \<longrightarrow> speed (applyFriction64 pw dt p) \<le> speed p
        \<and> speed64 (applyFriction64 pw dt p) \<le> speed64 p"
  proof
    assume "fl (vx p) = vx p \<and> fl (vy p) = vy p \<and> 0 \<le> pw friction64 dt \<and> pw friction64 dt \<le> 1"
    then have h: "fl (vx p) = vx p" "fl (vy p) = vy p" "0 \<le> pw friction64 dt"
      "pw friction64 dt \<le> 1" by simp_all
    from friction64_slows[of p pw dt, OF h]
    show "speed (applyFriction64 pw dt p) \<le> speed p
        \<and> speed64 (applyFriction64 pw dt p) \<le> speed64 p" by (rule conjI)
  qed
  have b: "0 \<le> dt \<longrightarrow> 0 \<le> pow64 friction64 dt \<and> pow64 friction64 dt \<le> 1"
  proof
    assume "0 \<le> dt"
    from pow64_range[OF this] show "0 \<le> pow64 friction64 dt \<and> pow64 friction64 dt \<le> 1"
      by (rule conjI)
  qed
  have c: "maxPuckSpeed < speed64 p
      \<longrightarrow> \<bar>speed64 (clampSpeed64 p) - maxPuckSpeed\<bar> \<le> 7 * eps * maxPuckSpeed
        \<and> \<bar>speed (clampSpeed64 p) - maxPuckSpeed\<bar> \<le> 5 * eps * maxPuckSpeed
        \<and> \<bar>vx (clampSpeed64 p) - maxPuckSpeed / speed64 p * vx p\<bar>
             \<le> 3 * eps * \<bar>maxPuckSpeed / speed64 p * vx p\<bar>
        \<and> \<bar>vy (clampSpeed64 p) - maxPuckSpeed / speed64 p * vy p\<bar>
             \<le> 3 * eps * \<bar>maxPuckSpeed / speed64 p * vy p\<bar>
        \<and> 0 < maxPuckSpeed / speed64 p"
  proof
    assume g: "maxPuckSpeed < speed64 p"
    from clampSpeed64_close[OF g] clampSpeed64_direction[OF g]
    show "\<bar>speed64 (clampSpeed64 p) - maxPuckSpeed\<bar> \<le> 7 * eps * maxPuckSpeed
        \<and> \<bar>speed (clampSpeed64 p) - maxPuckSpeed\<bar> \<le> 5 * eps * maxPuckSpeed
        \<and> \<bar>vx (clampSpeed64 p) - maxPuckSpeed / speed64 p * vx p\<bar>
             \<le> 3 * eps * \<bar>maxPuckSpeed / speed64 p * vx p\<bar>
        \<and> \<bar>vy (clampSpeed64 p) - maxPuckSpeed / speed64 p * vy p\<bar>
             \<le> 3 * eps * \<bar>maxPuckSpeed / speed64 p * vy p\<bar>
        \<and> 0 < maxPuckSpeed / speed64 p" by (intro conjI)
  qed
  from a b c show ?thesis by (intro conjI)
qed

theorem friction_slows_and_clamp_is_within_rounding_witness:
  "fl (vx (puckAt 0 0 100 1)) = vx (puckAt 0 0 100 1)
   \<and> fl (vy (puckAt 0 0 100 1)) = vy (puckAt 0 0 100 1)
   \<and> (0::real) \<le> 1
   \<and> 0 \<le> pow64 friction64 1 \<and> pow64 friction64 1 \<le> 1
   \<and> speed (applyFriction64 pow64 1 (puckAt 0 0 100 1)) \<le> speed (puckAt 0 0 100 1)
   \<and> speed64 (applyFriction64 pow64 1 (puckAt 0 0 100 1)) \<le> speed64 (puckAt 0 0 100 1)
   \<and> maxPuckSpeed < speed64 (puckAt 0 0 100 1)
   \<and> \<bar>speed64 (clampSpeed64 (puckAt 0 0 100 1)) - maxPuckSpeed\<bar> \<le> 7 * eps * maxPuckSpeed
   \<and> \<bar>speed (clampSpeed64 (puckAt 0 0 100 1)) - maxPuckSpeed\<bar> \<le> 5 * eps * maxPuckSpeed
   \<and> \<bar>vx (clampSpeed64 (puckAt 0 0 100 1))
        - maxPuckSpeed / speed64 (puckAt 0 0 100 1) * vx (puckAt 0 0 100 1)\<bar>
       \<le> 3 * eps * \<bar>maxPuckSpeed / speed64 (puckAt 0 0 100 1) * vx (puckAt 0 0 100 1)\<bar>
   \<and> 0 < maxPuckSpeed / speed64 (puckAt 0 0 100 1)"
proof -
  let ?P = "puckAt 0 0 100 1"
  note t = friction_slows_and_clamp_is_within_rounding[of ?P pow64 1]
  have d: "fl (vx ?P) = vx ?P" "fl (vy ?P) = vy ?P" by (simp_all add: fl_100)
  have z: "(0::real) \<le> 1" by simp
  have r: "0 \<le> pow64 friction64 1 \<and> pow64 friction64 1 \<le> 1"
    using t[THEN conjunct2, THEN conjunct1] z by (rule mp)
  then have r1: "0 \<le> pow64 friction64 1" and r2: "pow64 friction64 1 \<le> 1" by simp_all
  have f: "speed (applyFriction64 pow64 1 ?P) \<le> speed ?P
           \<and> speed64 (applyFriction64 pow64 1 ?P) \<le> speed64 ?P"
  proof (rule mp[OF t[THEN conjunct1]])
    from d r1 r2 show "fl (vx ?P) = vx ?P \<and> fl (vy ?P) = vy ?P
        \<and> 0 \<le> pow64 friction64 1 \<and> pow64 friction64 1 \<le> 1" by (intro conjI)
  qed
  have g: "maxPuckSpeed < speed64 ?P"
    unfolding clamp_100_1_speed by (simp add: maxPuckSpeed_def)
  have c: "\<bar>speed64 (clampSpeed64 ?P) - maxPuckSpeed\<bar> \<le> 7 * eps * maxPuckSpeed
        \<and> \<bar>speed (clampSpeed64 ?P) - maxPuckSpeed\<bar> \<le> 5 * eps * maxPuckSpeed
        \<and> \<bar>vx (clampSpeed64 ?P) - maxPuckSpeed / speed64 ?P * vx ?P\<bar>
             \<le> 3 * eps * \<bar>maxPuckSpeed / speed64 ?P * vx ?P\<bar>
        \<and> \<bar>vy (clampSpeed64 ?P) - maxPuckSpeed / speed64 ?P * vy ?P\<bar>
             \<le> 3 * eps * \<bar>maxPuckSpeed / speed64 ?P * vy ?P\<bar>
        \<and> 0 < maxPuckSpeed / speed64 ?P"
    using t[THEN conjunct2, THEN conjunct2] g by (rule mp)
  from f have f1: "speed (applyFriction64 pow64 1 ?P) \<le> speed ?P"
    and f2: "speed64 (applyFriction64 pow64 1 ?P) \<le> speed64 ?P" by (rule conjunct1, rule conjunct2)
  note c1' = c[THEN conjunct1]
  note c2' = c[THEN conjunct2, THEN conjunct1]
  note c3' = c[THEN conjunct2, THEN conjunct2, THEN conjunct1]
  note c5' = c[THEN conjunct2, THEN conjunct2, THEN conjunct2, THEN conjunct2]
  from d z r1 r2 f1 f2 g c1' c2' c3' c5' show ?thesis by (intro conjI)
qed

section \<open>Puck and paddle collision\<close>



lemma no_collision:
  assumes "\<not> (centreDistance p pad < radius p + radius pad \<and> 0 < centreDistance p pad)"
  shows "checkPaddleCollision p pad = (p, [])"
  using assms unfolding checkPaddleCollision_def Let_def centreDistance_def
  by (rule if_not_P)





section \<open>The mirroring of received state\<close>


lemma updateOpponentPaddle_position:
  assumes "opponentPaddle g = Some op"
  shows "\<exists>op'. opponentPaddle (updateOpponentPaddle g x y) = Some op'
           \<and> px op' = width g - x \<and> py op' = height g - y
           \<and> width (updateOpponentPaddle g x y) = width g
           \<and> height (updateOpponentPaddle g x y) = height g"
  using assms by (simp add: updateOpponentPaddle_def Let_def)

text \<open>The same in doubles.\<close>

lemma updateFromHost64_guest:
  assumes "\<not> isHost g" and "puck g = Some p"
  shows "\<exists>g1 ev1. updateFromHost64 g st = Inr (g1, ev1)
          \<and> puck g1 = Some (p\<lparr>px := fl (width g - px (spuck st)),
                                py := fl (height g - py (spuck st)),
                                vx := - vx (spuck st), vy := - vy (spuck st)\<rparr>)
          \<and> score g1 = \<lparr>player = opponent (sscore st), opponent = player (sscore st)\<rparr>
          \<and> width g1 = width g \<and> height g1 = height g \<and> isHost g1 = isHost g"
  using assms by (simp add: updateFromHost64_def Let_def gameOver_def split: prod.splits)

lemma roundTrip64_guest:
  assumes "\<not> isHost g" and "puck g = Some p"
  shows "roundTrip64 g st
           = Inr \<lparr>spuck = \<lparr>px = fl (width g - fl (width g - px (spuck st))),
                           py = fl (height g - fl (height g - py (spuck st))),
                           vx = vx (spuck st), vy = vy (spuck st)\<rparr>,
                  sscore = sscore st\<rparr>"
proof -
  let ?p1 = "p\<lparr>px := fl (width g - px (spuck st)), py := fl (height g - py (spuck st)),
               vx := - vx (spuck st), vy := - vy (spuck st)\<rparr>"
  obtain g1 ev1 where 1: "updateFromHost64 g st = Inr (g1, ev1)" "puck g1 = Some ?p1"
    "score g1 = \<lparr>player = opponent (sscore st), opponent = player (sscore st)\<rparr>"
    "width g1 = width g" "height g1 = height g" "\<not> isHost g1"
    using updateFromHost64_guest[OF assms, of st] assms(1) by auto
  let ?st1 = "snapshotOf ?p1 (score g1)"
  obtain g2 ev2 where 2: "updateFromHost64 g1 ?st1 = Inr (g2, ev2)"
    "puck g2 = Some (?p1\<lparr>px := fl (width g1 - px (spuck ?st1)),
                          py := fl (height g1 - py (spuck ?st1)),
                          vx := - vx (spuck ?st1), vy := - vy (spuck ?st1)\<rparr>)"
    "score g2 = \<lparr>player = opponent (sscore ?st1), opponent = player (sscore ?st1)\<rparr>"
    using updateFromHost64_guest[OF 1(6) 1(2), of ?st1] by auto
  show ?thesis
    using 1 2 by (simp add: roundTrip64_def snapshotOf_def)
qed

lemma mirror64_twice_error:
  "\<bar>fl (w - fl (w - x)) - x\<bar> \<le> eps * (2 * \<bar>w - x\<bar> + \<bar>x\<bar>)"
proof -
  define y where "y = fl (w - x)"
  define z where "z = fl (w - y)"
  have a: "\<bar>y - (w - x)\<bar> \<le> eps * \<bar>w - x\<bar>" unfolding y_def by (rule fl_abs_error)
  have b: "\<bar>z - (w - y)\<bar> \<le> eps * \<bar>w - y\<bar>" unfolding z_def by (rule fl_abs_error)
  have "\<bar>w - y\<bar> \<le> \<bar>x\<bar> + \<bar>y - (w - x)\<bar>" by linarith
  also have "\<dots> \<le> \<bar>x\<bar> + eps * \<bar>w - x\<bar>" using a by simp
  also have "\<dots> \<le> \<bar>x\<bar> + 1 * \<bar>w - x\<bar>"
    using eps_bounds(2) by (intro add_left_mono mult_right_mono) simp_all
  finally have c: "\<bar>w - y\<bar> \<le> \<bar>x\<bar> + \<bar>w - x\<bar>" by simp
  have "eps * \<bar>w - y\<bar> \<le> eps * (\<bar>x\<bar> + \<bar>w - x\<bar>)"
    using c eps_bounds(1) by (intro mult_left_mono) simp_all
  then have b': "\<bar>z - (w - y)\<bar> \<le> eps * (\<bar>x\<bar> + \<bar>w - x\<bar>)" using b by linarith
  have "\<bar>z - x\<bar> \<le> \<bar>z - (w - y)\<bar> + \<bar>y - (w - x)\<bar>" by linarith
  also have "\<dots> \<le> eps * (\<bar>x\<bar> + \<bar>w - x\<bar>) + eps * \<bar>w - x\<bar>" using a b' by linarith
  also have "\<dots> = eps * (2 * \<bar>w - x\<bar> + \<bar>x\<bar>)" by (simp add: algebra_simps)
  finally show ?thesis unfolding z_def y_def .
qed

lemma mirror64_twice_exact:
  assumes "fl x = x" and "fl (w - x) = w - x"
  shows "fl (w - fl (w - x)) = x"
  using assms by simp

lemma fl_300: "fl (600 - 300) = 300"
  by (rule fl_eq[where j = 44 and m = "300 * 2 ^ 44"]) simp_all

lemma fl_300': "fl (600 - fl (600 - 300)) = 300"
  by (simp only: fl_300)

text \<open>
  C1 as stated fails in the arithmetic of the engine.  On a table 400 wide, the state whose
  puck is at \<open>x = 28.3\<close> (the double nearest to it) is mirrored to \<open>400 - x\<close> rounded, and
  mirroring that again gives \<open>x + 3 / 2\<^sup>4\<^sup>8\<close> (printed 28.30000000000001), not \<open>x\<close>.
\<close>

theorem mirroring_twice_moves_28_3:
  "fl (283 / 10) = 7965741840911565 / 2 ^ 48
   \<and> roundTrip64 (tableWith (puckAt 200 300 0 0) \<lparr>player = 0, opponent = 0\<rparr> False)
        \<lparr>spuck = \<lparr>px = 7965741840911565 / 2 ^ 48, py = 300, vx = 3, vy = - 4\<rparr>,
         sscore = \<lparr>player = 2, opponent = 1\<rparr>\<rparr>
       = Inr \<lparr>spuck = \<lparr>px = 7965741840911568 / 2 ^ 48, py = 300, vx = 3, vy = - 4\<rparr>,
              sscore = \<lparr>player = 2, opponent = 1\<rparr>\<rparr>
   \<and> (7965741840911568 / 2 ^ 48 :: real) \<noteq> 7965741840911565 / 2 ^ 48"
proof -
  let ?G = "tableWith (puckAt 200 300 0 0) \<lparr>player = 0, opponent = 0\<rparr> False"
  let ?ST = "\<lparr>spuck = \<lparr>px = 7965741840911565 / 2 ^ 48, py = 300, vx = 3, vy = - 4\<rparr>,
              sscore = \<lparr>player = 2, opponent = 1\<rparr>\<rparr>"
  have h: "\<not> isHost ?G" "puck ?G = Some (puckAt 200 300 0 0)" by simp_all
  have e: "px (spuck ?ST) = 7965741840911565 / 2 ^ 48" "py (spuck ?ST) = 300"
    "vx (spuck ?ST) = 3" "vy (spuck ?ST) = - 4" "sscore ?ST = \<lparr>player = 2, opponent = 1\<rparr>"
    "width ?G = 400" "height ?G = 600"
    by simp_all
  have r: "roundTrip64 ?G ?ST
       = Inr \<lparr>spuck = \<lparr>px = 7965741840911568 / 2 ^ 48, py = 300, vx = 3, vy = - 4\<rparr>,
              sscore = \<lparr>player = 2, opponent = 1\<rparr>\<rparr>"
    unfolding roundTrip64_guest[OF h] e fl_mirror_28_3 fl_mirror_back_28_3 fl_300' ..
  have n: "(7965741840911568 / 2 ^ 48 :: real) \<noteq> 7965741840911565 / 2 ^ 48" by simp
  from fl_28_3 r n show ?thesis by (intro conjI)
qed

lemma updateOpponentPaddle64_twice:
  assumes "opponentPaddle g = Some op"
  shows "\<exists>op1 op2.
           opponentPaddle (updateOpponentPaddle64 g x y) = Some op1
         \<and> opponentPaddle (updateOpponentPaddle64 (updateOpponentPaddle64 g x y) (px op1) (py op1))
             = Some op2
         \<and> px op2 = fl (width g - fl (width g - x))
         \<and> py op2 = fl (height g - fl (height g - y))"
  using assms by (simp add: updateOpponentPaddle64_def Let_def)

text \<open>
  C1, amended.  Mirroring a received state twice gives back the velocity and the score for
  all values, and the position up to the rounding of the two subtractions: the result is
  within \<open>eps (2 |width - x| + |x|)\<close> of \<open>x\<close> (and the same for \<open>y\<close> with the height), and
  it is \<open>x\<close> itself whenever \<open>x\<close> is a double and \<open>width - x\<close> is computed without
  rounding, as it is for integer coordinates.  The same holds for the paddle position
  mirrored twice by \<open>updateOpponentPaddle\<close>.  This holds for every width and height.
\<close>

theorem mirroring_twice_is_within_rounding:
  assumes "\<not> isHost g" and "puck g = Some p" and "opponentPaddle g = Some op"
  shows "(\<exists>st2. roundTrip64 g st = Inr st2
            \<and> vx (spuck st2) = vx (spuck st) \<and> vy (spuck st2) = vy (spuck st)
            \<and> sscore st2 = sscore st
            \<and> \<bar>px (spuck st2) - px (spuck st)\<bar>
                 \<le> eps * (2 * \<bar>width g - px (spuck st)\<bar> + \<bar>px (spuck st)\<bar>)
            \<and> \<bar>py (spuck st2) - py (spuck st)\<bar>
                 \<le> eps * (2 * \<bar>height g - py (spuck st)\<bar> + \<bar>py (spuck st)\<bar>)
            \<and> (fl (px (spuck st)) = px (spuck st)
                 \<and> fl (width g - px (spuck st)) = width g - px (spuck st)
                 \<longrightarrow> px (spuck st2) = px (spuck st))
            \<and> (fl (py (spuck st)) = py (spuck st)
                 \<and> fl (height g - py (spuck st)) = height g - py (spuck st)
                 \<longrightarrow> py (spuck st2) = py (spuck st)))
       \<and> (\<exists>op1 op2.
            opponentPaddle (updateOpponentPaddle64 g x y) = Some op1
          \<and> opponentPaddle (updateOpponentPaddle64 (updateOpponentPaddle64 g x y) (px op1) (py op1))
              = Some op2
          \<and> \<bar>px op2 - x\<bar> \<le> eps * (2 * \<bar>width g - x\<bar> + \<bar>x\<bar>)
          \<and> \<bar>py op2 - y\<bar> \<le> eps * (2 * \<bar>height g - y\<bar> + \<bar>y\<bar>)
          \<and> (fl x = x \<and> fl (width g - x) = width g - x \<longrightarrow> px op2 = x)
          \<and> (fl y = y \<and> fl (height g - y) = height g - y \<longrightarrow> py op2 = y))"
proof
  let ?st2 = "\<lparr>spuck = \<lparr>px = fl (width g - fl (width g - px (spuck st))),
                           py = fl (height g - fl (height g - py (spuck st))),
                           vx = vx (spuck st), vy = vy (spuck st)\<rparr>,
                  sscore = sscore st\<rparr>"
  have r: "roundTrip64 g st = Inr ?st2" by (rule roundTrip64_guest[OF assms(1,2)])
  have "vx (spuck ?st2) = vx (spuck st) \<and> vy (spuck ?st2) = vy (spuck st)
            \<and> sscore ?st2 = sscore st
            \<and> \<bar>px (spuck ?st2) - px (spuck st)\<bar>
                 \<le> eps * (2 * \<bar>width g - px (spuck st)\<bar> + \<bar>px (spuck st)\<bar>)
            \<and> \<bar>py (spuck ?st2) - py (spuck st)\<bar>
                 \<le> eps * (2 * \<bar>height g - py (spuck st)\<bar> + \<bar>py (spuck st)\<bar>)
            \<and> (fl (px (spuck st)) = px (spuck st)
                 \<and> fl (width g - px (spuck st)) = width g - px (spuck st)
                 \<longrightarrow> px (spuck ?st2) = px (spuck st))
            \<and> (fl (py (spuck st)) = py (spuck st)
                 \<and> fl (height g - py (spuck st)) = height g - py (spuck st)
                 \<longrightarrow> py (spuck ?st2) = py (spuck st))"
    using mirror64_twice_error[of "width g" "px (spuck st)"]
      mirror64_twice_error[of "height g" "py (spuck st)"]
    by simp
  with r have "roundTrip64 g st = Inr ?st2
            \<and> vx (spuck ?st2) = vx (spuck st) \<and> vy (spuck ?st2) = vy (spuck st)
            \<and> sscore ?st2 = sscore st
            \<and> \<bar>px (spuck ?st2) - px (spuck st)\<bar>
                 \<le> eps * (2 * \<bar>width g - px (spuck st)\<bar> + \<bar>px (spuck st)\<bar>)
            \<and> \<bar>py (spuck ?st2) - py (spuck st)\<bar>
                 \<le> eps * (2 * \<bar>height g - py (spuck st)\<bar> + \<bar>py (spuck st)\<bar>)
            \<and> (fl (px (spuck st)) = px (spuck st)
                 \<and> fl (width g - px (spuck st)) = width g - px (spuck st)
                 \<longrightarrow> px (spuck ?st2) = px (spuck st))
            \<and> (fl (py (spuck st)) = py (spuck st)
                 \<and> fl (height g - py (spuck st)) = height g - py (spuck st)
                 \<longrightarrow> py (spuck ?st2) = py (spuck st))"
    by (rule conjI)
  then show "\<exists>st2. roundTrip64 g st = Inr st2
            \<and> vx (spuck st2) = vx (spuck st) \<and> vy (spuck st2) = vy (spuck st)
            \<and> sscore st2 = sscore st
            \<and> \<bar>px (spuck st2) - px (spuck st)\<bar>
                 \<le> eps * (2 * \<bar>width g - px (spuck st)\<bar> + \<bar>px (spuck st)\<bar>)
            \<and> \<bar>py (spuck st2) - py (spuck st)\<bar>
                 \<le> eps * (2 * \<bar>height g - py (spuck st)\<bar> + \<bar>py (spuck st)\<bar>)
            \<and> (fl (px (spuck st)) = px (spuck st)
                 \<and> fl (width g - px (spuck st)) = width g - px (spuck st)
                 \<longrightarrow> px (spuck st2) = px (spuck st))
            \<and> (fl (py (spuck st)) = py (spuck st)
                 \<and> fl (height g - py (spuck st)) = height g - py (spuck st)
                 \<longrightarrow> py (spuck st2) = py (spuck st))"
    by (rule exI[where x = ?st2])
  obtain op1 op2 where o:
    "opponentPaddle (updateOpponentPaddle64 g x y) = Some op1"
    "opponentPaddle (updateOpponentPaddle64 (updateOpponentPaddle64 g x y) (px op1) (py op1))
       = Some op2"
    "px op2 = fl (width g - fl (width g - x))" "py op2 = fl (height g - fl (height g - y))"
    using updateOpponentPaddle64_twice[OF assms(3), of x y] by blast
  have "\<bar>px op2 - x\<bar> \<le> eps * (2 * \<bar>width g - x\<bar> + \<bar>x\<bar>)
          \<and> \<bar>py op2 - y\<bar> \<le> eps * (2 * \<bar>height g - y\<bar> + \<bar>y\<bar>)
          \<and> (fl x = x \<and> fl (width g - x) = width g - x \<longrightarrow> px op2 = x)
          \<and> (fl y = y \<and> fl (height g - y) = height g - y \<longrightarrow> py op2 = y)"
    unfolding o(3,4)
    using mirror64_twice_error[of "width g" x] mirror64_twice_error[of "height g" y]
    by simp
  with o(1,2) show "\<exists>op1 op2.
            opponentPaddle (updateOpponentPaddle64 g x y) = Some op1
          \<and> opponentPaddle (updateOpponentPaddle64 (updateOpponentPaddle64 g x y) (px op1) (py op1))
              = Some op2
          \<and> \<bar>px op2 - x\<bar> \<le> eps * (2 * \<bar>width g - x\<bar> + \<bar>x\<bar>)
          \<and> \<bar>py op2 - y\<bar> \<le> eps * (2 * \<bar>height g - y\<bar> + \<bar>y\<bar>)
          \<and> (fl x = x \<and> fl (width g - x) = width g - x \<longrightarrow> px op2 = x)
          \<and> (fl y = y \<and> fl (height g - y) = height g - y \<longrightarrow> py op2 = y)"
    by blast
qed

lemma fl_120: "fl 120 = 120"
  by (rule fl_eq[where j = 46 and m = "120 * 2 ^ 46"]) simp_all

lemma fl_280: "fl 280 = 280"
  by (rule fl_eq[where j = 44 and m = "280 * 2 ^ 44"]) simp_all

lemma fl_450: "fl 450 = 450"
  by (rule fl_eq[where j = 44 and m = "450 * 2 ^ 44"]) simp_all

lemma fl_150: "fl 150 = 150"
  by (rule fl_eq[where j = 45 and m = "150 * 2 ^ 45"]) simp_all

theorem mirroring_twice_is_within_rounding_witness:
  "\<not> isHost (tableWith (puckAt 200 300 0 0) \<lparr>player = 0, opponent = 0\<rparr> False)
   \<and> puck (tableWith (puckAt 200 300 0 0) \<lparr>player = 0, opponent = 0\<rparr> False)
       = Some (puckAt 200 300 0 0)
   \<and> opponentPaddle (tableWith (puckAt 200 300 0 0) \<lparr>player = 0, opponent = 0\<rparr> False)
       = Some awayPaddle
   \<and> fl 120 = 120 \<and> fl (400 - 120) = 400 - 120 \<and> fl 450 = 450 \<and> fl (600 - 450) = 600 - 450
   \<and> roundTrip64 (tableWith (puckAt 200 300 0 0) \<lparr>player = 0, opponent = 0\<rparr> False)
        \<lparr>spuck = \<lparr>px = 120, py = 450, vx = 3, vy = - 4\<rparr>, sscore = \<lparr>player = 2, opponent = 1\<rparr>\<rparr>
       = Inr \<lparr>spuck = \<lparr>px = 120, py = 450, vx = 3, vy = - 4\<rparr>,
              sscore = \<lparr>player = 2, opponent = 1\<rparr>\<rparr>
   \<and> (\<exists>op1 op2.
        opponentPaddle (updateOpponentPaddle64
            (tableWith (puckAt 200 300 0 0) \<lparr>player = 0, opponent = 0\<rparr> False) 120 450) = Some op1
      \<and> opponentPaddle (updateOpponentPaddle64 (updateOpponentPaddle64
            (tableWith (puckAt 200 300 0 0) \<lparr>player = 0, opponent = 0\<rparr> False) 120 450)
            (px op1) (py op1)) = Some op2
      \<and> px op2 = 120 \<and> py op2 = 450)"
proof -
  let ?g = "tableWith (puckAt 200 300 0 0) \<lparr>player = 0, opponent = 0\<rparr> False"
  let ?st = "\<lparr>spuck = \<lparr>px = 120, py = 450, vx = 3, vy = - 4\<rparr>, sscore = \<lparr>player = 2, opponent = 1\<rparr>\<rparr>"
  have a: "\<not> isHost ?g" "puck ?g = Some (puckAt 200 300 0 0)" "opponentPaddle ?g = Some awayPaddle"
    by simp_all
  have d: "fl 120 = 120" "fl (400 - 120) = 400 - 120" "fl 450 = 450" "fl (600 - 450) = 600 - 450"
    by (simp_all add: fl_120 fl_280 fl_450 fl_150)
  note t = mirroring_twice_is_within_rounding[OF a, of ?st 120 450]
  from t[THEN conjunct1] obtain st2 where r: "roundTrip64 ?g ?st = Inr st2"
    "vx (spuck st2) = vx (spuck ?st)" "vy (spuck st2) = vy (spuck ?st)" "sscore st2 = sscore ?st"
    "fl (px (spuck ?st)) = px (spuck ?st) \<and> fl (width ?g - px (spuck ?st)) = width ?g - px (spuck ?st)
       \<longrightarrow> px (spuck st2) = px (spuck ?st)"
    "fl (py (spuck ?st)) = py (spuck ?st) \<and> fl (height ?g - py (spuck ?st)) = height ?g - py (spuck ?st)
       \<longrightarrow> py (spuck st2) = py (spuck ?st)"
    by blast
  have "px (spuck st2) = 120" "py (spuck st2) = 450" using r(5,6) d by simp_all
  then have "st2 = ?st" using r(2,3,4) by (cases st2) simp
  then have r': "roundTrip64 ?g ?st = Inr ?st" using r(1) by simp
  from t[THEN conjunct2] obtain op1 op2 where o:
    "opponentPaddle (updateOpponentPaddle64 ?g 120 450) = Some op1"
    "opponentPaddle (updateOpponentPaddle64 (updateOpponentPaddle64 ?g 120 450) (px op1) (py op1))
       = Some op2"
    "fl 120 = 120 \<and> fl (width ?g - 120) = width ?g - 120 \<longrightarrow> px op2 = 120"
    "fl 450 = 450 \<and> fl (height ?g - 450) = height ?g - 450 \<longrightarrow> py op2 = 450"
    by blast
  have "px op2 = 120" "py op2 = 450" using o(3,4) d by simp_all
  with o(1,2) have p: "\<exists>op1 op2.
        opponentPaddle (updateOpponentPaddle64 ?g 120 450) = Some op1
      \<and> opponentPaddle (updateOpponentPaddle64 (updateOpponentPaddle64 ?g 120 450)
            (px op1) (py op1)) = Some op2
      \<and> px op2 = 120 \<and> py op2 = 450"
    by blast
  from a d r' p show ?thesis by (intro conjI)
qed

text \<open>
  C10: a paddle message \<open>(x, y)\<close> sets the opponent paddle to exactly
  \<open>(width - x, height - y)\<close>; nothing clamps it, so coordinates outside the canvas are
  mirrored to a position that is outside the canvas as well.
\<close>

theorem paddle_message_is_mirrored_unclamped:
  assumes "opponentPaddle g = Some op"
  shows "\<exists>g' op'. handleMessage e n g (Paddle x y) = Inr (g', [])
           \<and> opponentPaddle g' = Some op'
           \<and> px op' = width g - x \<and> py op' = height g - y
           \<and> (px op' < 0 \<longleftrightarrow> width g < x) \<and> (width g < px op' \<longleftrightarrow> x < 0)
           \<and> (py op' < 0 \<longleftrightarrow> height g < y) \<and> (height g < py op' \<longleftrightarrow> y < 0)"
  using updateOpponentPaddle_position[OF assms, of x y]
  by (auto simp add: handleMessage_def)

theorem paddle_message_is_mirrored_unclamped_witness:
  "opponentPaddle (tableWith (puckAt 200 300 0 0) \<lparr>player = 0, opponent = 0\<rparr> True) = Some awayPaddle
   \<and> (\<exists>g' op'. handleMessage (envAt 1000) linkedNetwork
                  (tableWith (puckAt 200 300 0 0) \<lparr>player = 0, opponent = 0\<rparr> True)
                  (Paddle (- 100) 900) = Inr (g', [])
          \<and> opponentPaddle g' = Some op' \<and> px op' = 500 \<and> py op' = - 300)"
  using paddle_message_is_mirrored_unclamped
    [of "tableWith (puckAt 200 300 0 0) \<lparr>player = 0, opponent = 0\<rparr> True" awayPaddle
        "envAt 1000" linkedNetwork "- 100" 900]
  by auto

section \<open>The three ways through updatePhysics\<close>

lemma updatePhysics_top_goal:
  assumes "puck g = Some p0" "beforeEndWalls g dt p0 = (p1, ev1)" "topWall g p1 = Inl s"
  shows "updatePhysics e n g dt =
           Inr (fst (goalScored s (g\<lparr>puck := Some p1,
                                     puckTrail := pushTrail (px p0, py p0) (puckTrail g)\<rparr>)), n,
                ev1 @ snd (goalScored s (g\<lparr>puck := Some p1,
                                     puckTrail := pushTrail (px p0, py p0) (puckTrail g)\<rparr>)))"
  using assms by (simp add: updatePhysics_def Let_def split: prod.splits)

lemma updatePhysics_bottom_goal:
  assumes "puck g = Some p0" "beforeEndWalls g dt p0 = (p1, ev1)" "topWall g p1 = Inr (p2, ev2)"
    "bottomWall g p2 = Inl s"
  shows "updatePhysics e n g dt =
           Inr (fst (goalScored s (g\<lparr>puck := Some p2,
                                     puckTrail := pushTrail (px p0, py p0) (puckTrail g)\<rparr>)), n,
                ev1 @ ev2 @ snd (goalScored s (g\<lparr>puck := Some p2,
                                     puckTrail := pushTrail (px p0, py p0) (puckTrail g)\<rparr>)))"
  using assms by (simp add: updatePhysics_def Let_def split: prod.splits)

lemma updatePhysics_in_play:
  assumes "puck g = Some p0" "beforeEndWalls g dt p0 = (p1, ev1)" "topWall g p1 = Inr (p2, ev2)"
    "bottomWall g p2 = Inr (p3, ev3)" "playerPaddle g = Some pp" "opponentPaddle g = Some op"
    "checkPaddleCollision p3 pp = (p4, ev4)" "checkPaddleCollision p4 op = (p5, ev5)"
  shows "updatePhysics e n g dt =
           Inr (g\<lparr>puck := Some p5, puckTrail := pushTrail (px p0, py p0) (puckTrail g)\<rparr>,
                (if isConnected n then fst (sendGameState e n (snapshotOf p5 (score g))) else n),
                ev1 @ ev2 @ ev3 @ ev4 @ ev5 @
                (if isConnected n then snd (sendGameState e n (snapshotOf p5 (score g))) else []))"
  using assms by (simp add: updatePhysics_def Let_def split: prod.splits)

lemma sideWalls_events: "set (snd (sideWalls g p)) \<subseteq> {Play ''wall''}"
  by (simp add: sideWalls_def)

lemma beforeEndWalls_events: "beforeEndWalls g dt p0 = (p1, ev1) \<Longrightarrow> set ev1 \<subseteq> {Play ''wall''}"
  using sideWalls_events[of g "clampSpeed (applyFriction dt (movePuck dt p0))"]
  by (simp add: beforeEndWalls_def)






lemma goalScored_events:
  "Play ''goal'' \<in> set (snd (goalScored s g))"
  "Sent m \<notin> set (snd (goalScored s g))"
  "SendError \<notin> set (snd (goalScored s g))"
  "Play ''hit'' \<notin> set (snd (goalScored s g))"
  by (auto simp add: goalScored_def gameOver_def Let_def split: option.splits)

lemma goalScored_fields:
  "puck (fst (goalScored s g)) = puck g"
  "score (fst (goalScored s g)) = bump s (score g)"
  "puckTrail (fst (goalScored s g)) = puckTrail g"
  "isRunning (fst (goalScored s g)) = (isRunning g \<and> points s (bump s (score g)) < winningScore)"
  by (auto simp add: goalScored_def gameOver_def Let_def)

lemma topWall_cases:
  "topWall g p = Inl s \<longleftrightarrow> (py p < wallTop g p \<and> insideGoal g p \<and> s = Player)"
  by (auto simp add: topWall_def insideGoal_def)

lemma bottomWall_cases:
  "bottomWall g p = Inl s \<longleftrightarrow> (py p > wallBottom g p \<and> insideGoal g p \<and> s = Opponent)"
  by (auto simp add: bottomWall_def insideGoal_def)



lemma goal_tick:
  assumes "puck g = Some p0" and "beforeEndWalls g dt p0 = (p1, ev1)"
    and "py p1 < wallTop g p1 \<or> py p1 > wallBottom g p1" and "insideGoal g p1"
  shows "updatePhysics e n g dt =
           Inr (fst (goalScored (if py p1 < wallTop g p1 then Player else Opponent)
                       (g\<lparr>puck := Some p1, puckTrail := pushTrail (px p0, py p0) (puckTrail g)\<rparr>)), n,
                ev1 @ snd (goalScored (if py p1 < wallTop g p1 then Player else Opponent)
                       (g\<lparr>puck := Some p1, puckTrail := pushTrail (px p0, py p0) (puckTrail g)\<rparr>)))"
proof (cases "py p1 < wallTop g p1")
  case True
  then have "topWall g p1 = Inl Player" using assms(4) by (simp add: topWall_cases)
  from updatePhysics_top_goal[OF assms(1,2) this, of e n] True show ?thesis by simp
next
  case False
  then have t: "topWall g p1 = Inr (p1, [])" by (simp add: topWall_def)
  have "bottomWall g p1 = Inl Opponent" using False assms(3,4) by (simp add: bottomWall_cases)
  from updatePhysics_bottom_goal[OF assms(1,2) t this, of e n] False show ?thesis by simp
qed


section \<open>Goal detection at the end walls\<close>

lemma sqrt_greater_iff_square:
  fixes r s :: real
  assumes "0 \<le> r"
  shows "r < sqrt s \<longleftrightarrow> r * r < s"
proof -
  have "sqrt (r * r) = r" using assms by simp
  then have "r < sqrt s \<longleftrightarrow> sqrt (r * r) < sqrt s" by simp
  then show ?thesis by (simp only: real_sqrt_less_iff)
qed

lemma slow_puck_not_clamped:
  assumes "vx p * vx p + vy p * vy p \<le> 625"
  shows "clampSpeed p = p"
  using assms by (simp add: clampSpeed_def speed_def maxPuckSpeed_def sqrt_greater_iff_square)

text \<open>One tick of 1 frame on the concrete table, for a slow puck away from the side walls.\<close>

lemma table_beforeEndWalls:
  assumes "28 \<le> x + u" and "x + u \<le> 372" and "u * u + v * v \<le> 625"
  shows "beforeEndWalls (tableWith (puckAt x y u v) sc host) 1 (puckAt x y u v)
           = (puckAt (x + u) (y + v) (u * 0.995) (v * 0.995), [])"
proof -
  have m: "applyFriction 1 (movePuck 1 (puckAt x y u v)) = puckAt (x + u) (y + v) (u * 0.995) (v * 0.995)"
    by (simp add: applyFriction_def movePuck_def friction_def puckAt_def)
  have "(u * 0.995) * (u * 0.995) + (v * 0.995) * (v * 0.995) = 0.990025 * (u * u + v * v)"
    by (simp add: algebra_simps)
  also have "\<dots> \<le> 1 * (u * u + v * v)" by (rule mult_right_mono) simp_all
  finally have "(u * 0.995) * (u * 0.995) + (v * 0.995) * (v * 0.995) \<le> 625"
    using assms(3) by simp
  then have c: "clampSpeed (puckAt (x + u) (y + v) (u * 0.995) (v * 0.995))
                  = puckAt (x + u) (y + v) (u * 0.995) (v * 0.995)"
    by (intro slow_puck_not_clamped) simp
  show ?thesis
    unfolding beforeEndWalls_def m c
    using assms(1,2) by (simp add: sideWalls_def wallLeft_def wallRight_def)
qed



section \<open>The goal tick and the halted loop\<close>

lemma hostStep_halted: "\<not> isRunning g \<Longrightarrow> hostStep s n g = Inr (g, n, [])"
proof (cases s)
  case (Frame e t)
  assume "\<not> isRunning g"
  then show ?thesis by (simp add: Frame gameLoop_def)
next
  case (TimerFires e tm)
  assume "\<not> isRunning g"
  then show ?thesis by (cases tm) (simp add: TimerFires)
qed

lemma hostRun_halted: "\<not> isRunning g \<Longrightarrow> hostRun steps n g = Inr (g, n, [])"
  by (induction steps) (simp_all add: hostStep_halted)

lemma goalScored_match_over:
  assumes "winningScore \<le> points s (bump s (score g))"
  shows "\<not> isRunning (fst (goalScored s g))"
    and "ShowGameOver (s = Player) (player (bump s (score g))) (opponent (bump s (score g)))
           \<in> set (snd (goalScored s g))"
  using assms by (auto simp add: goalScored_def gameOver_def Let_def)

text \<open>
  C2: in a host tick in which the puck has crossed an end wall strictly inside the goal
  mouth, \<open>updatePhysics\<close> returns from \<open>goalScored\<close>: the puck is the one the walls left
  (no paddle collision is applied, no "hit" plays, and the paddles are not even read), the
  network state is untouched and no message is sent.  When that goal takes the scorer to
  the winning score, the game stops running and shows the game-over screen, and from then
  on no animation frame and no reset timer has any effect: no event, so no broadcast.
\<close>

theorem goal_tick_skips_paddles_and_broadcast:
  assumes "puck g = Some p0" and "beforeEndWalls g dt p0 = (p1, ev1)"
    and "py p1 < wallTop g p1 \<or> py p1 > wallBottom g p1"
    and "goalLeft g < px p1 \<and> px p1 < goalRight g"
  shows "\<exists>g' ev. updatePhysics e n g dt = Inr (g', n, ev)
           \<and> (\<forall>m. Sent m \<notin> set ev) \<and> SendError \<notin> set ev \<and> Play ''hit'' \<notin> set ev
           \<and> puck g' = Some p1
           \<and> score g' = bump (if py p1 < wallTop g p1 then Player else Opponent) (score g)
           \<and> (winningScore \<le> points (if py p1 < wallTop g p1 then Player else Opponent) (score g')
                \<longrightarrow> \<not> isRunning g'
                  \<and> ShowGameOver (py p1 < wallTop g p1) (player (score g')) (opponent (score g'))
                      \<in> set ev
                  \<and> (\<forall>steps n'. hostRun steps n' g' = Inr (g', n', [])))"
proof -
  let ?s = "if py p1 < wallTop g p1 then Player else Opponent"
  let ?g0 = "g\<lparr>puck := Some p1, puckTrail := pushTrail (px p0, py p0) (puckTrail g)\<rparr>"
  let ?g' = "fst (goalScored ?s ?g0)"
  let ?ev = "ev1 @ snd (goalScored ?s ?g0)"
  have inside: "insideGoal g p1" using assms(4) by (simp add: insideGoal_def)
  have u: "updatePhysics e n g dt = Inr (?g', n, ?ev)"
    by (rule goal_tick[OF assms(1-3) inside])
  have w: "set ev1 \<subseteq> {Play ''wall''}" by (rule beforeEndWalls_events[OF assms(2)])
  have quiet: "(\<forall>m. Sent m \<notin> set ?ev) \<and> SendError \<notin> set ?ev \<and> Play ''hit'' \<notin> set ?ev"
    using w goalScored_events(2)[of _ ?s ?g0] goalScored_events(3,4)[of ?s ?g0] by auto
  have sc: "score ?g' = bump ?s (score g)" by (simp add: goalScored_fields)
  have pk: "puck ?g' = Some p1" by (simp add: goalScored_fields)
  have over: "\<not> isRunning ?g'
              \<and> ShowGameOver (py p1 < wallTop g p1) (player (score ?g')) (opponent (score ?g')) \<in> set ?ev
              \<and> (\<forall>steps n'. hostRun steps n' ?g' = Inr (?g', n', []))"
    if "winningScore \<le> points ?s (score ?g')"
  proof -
    have p: "winningScore \<le> points ?s (bump ?s (score ?g0))" using that sc by simp
    have r: "\<not> isRunning ?g'" by (rule goalScored_match_over(1)[OF p])
    have "ShowGameOver (?s = Player) (player (bump ?s (score ?g0))) (opponent (bump ?s (score ?g0)))
            \<in> set (snd (goalScored ?s ?g0))"
      by (rule goalScored_match_over(2)[OF p])
    then have "ShowGameOver (py p1 < wallTop g p1) (player (score ?g')) (opponent (score ?g')) \<in> set ?ev"
      by (cases "py p1 < wallTop g p1") (simp_all add: goalScored_fields)
    then show ?thesis using r hostRun_halted[OF r] by blast
  qed
  show ?thesis using u quiet sc pk over by blast
qed

theorem goal_tick_skips_paddles_and_broadcast_witness:
  "puck (tableWith (puckAt 200 570 0 5) \<lparr>player = 10, opponent = 10\<rparr> True) = Some (puckAt 200 570 0 5)
   \<and> beforeEndWalls (tableWith (puckAt 200 570 0 5) \<lparr>player = 10, opponent = 10\<rparr> True) 1 (puckAt 200 570 0 5)
       = (puckAt 200 575 0 4.975, [])
   \<and> py (puckAt 200 575 0 4.975)
       > wallBottom (tableWith (puckAt 200 570 0 5) \<lparr>player = 10, opponent = 10\<rparr> True) (puckAt 200 575 0 4.975)
   \<and> goalLeft (tableWith (puckAt 200 570 0 5) \<lparr>player = 10, opponent = 10\<rparr> True) < px (puckAt 200 575 0 4.975)
   \<and> px (puckAt 200 575 0 4.975) < goalRight (tableWith (puckAt 200 570 0 5) \<lparr>player = 10, opponent = 10\<rparr> True)
   \<and> (\<exists>g' ev. updatePhysics (envAt 1000) linkedNetwork
          (tableWith (puckAt 200 570 0 5) \<lparr>player = 10, opponent = 10\<rparr> True) 1 = Inr (g', linkedNetwork, ev)
        \<and> (\<forall>m. Sent m \<notin> set ev) \<and> Play ''hit'' \<notin> set ev
        \<and> puck g' = Some (puckAt 200 575 0 4.975)
        \<and> score g' = \<lparr>player = 10, opponent = 11\<rparr>
        \<and> \<not> isRunning g'
        \<and> ShowGameOver False 10 11 \<in> set ev
        \<and> hostRun [Frame (envAt 1017) 16.67, TimerFires (envAt 2500) (ResetPuckTimer True)]
             linkedNetwork g' = Inr (g', linkedNetwork, []))"
proof -
  let ?g = "tableWith (puckAt 200 570 0 5) \<lparr>player = 10, opponent = 10\<rparr> True"
  have b: "beforeEndWalls ?g 1 (puckAt 200 570 0 5) = (puckAt 200 575 0 4.975, [])"
    using table_beforeEndWalls[of 200 0 5 570 "\<lparr>player = 10, opponent = 10\<rparr>" True] by simp
  have h: "puck ?g = Some (puckAt 200 570 0 5)"
    "py (puckAt 200 575 0 4.975) < wallTop ?g (puckAt 200 575 0 4.975)
       \<or> py (puckAt 200 575 0 4.975) > wallBottom ?g (puckAt 200 575 0 4.975)"
    "goalLeft ?g < px (puckAt 200 575 0 4.975) \<and> px (puckAt 200 575 0 4.975) < goalRight ?g"
    by simp_all
  from goal_tick_skips_paddles_and_broadcast[OF h(1) b h(2) h(3), of "envAt 1000" linkedNetwork]
  obtain g' ev where r: "updatePhysics (envAt 1000) linkedNetwork ?g 1 = Inr (g', linkedNetwork, ev)"
    "\<forall>m. Sent m \<notin> set ev" "Play ''hit'' \<notin> set ev" "puck g' = Some (puckAt 200 575 0 4.975)"
    "score g' = bump (if py (puckAt 200 575 0 4.975) < wallTop ?g (puckAt 200 575 0 4.975)
                      then Player else Opponent) (score ?g)"
    "winningScore \<le> points (if py (puckAt 200 575 0 4.975) < wallTop ?g (puckAt 200 575 0 4.975)
                               then Player else Opponent) (score g')
       \<longrightarrow> \<not> isRunning g'
         \<and> ShowGameOver (py (puckAt 200 575 0 4.975) < wallTop ?g (puckAt 200 575 0 4.975))
              (player (score g')) (opponent (score g')) \<in> set ev
         \<and> (\<forall>steps n'. hostRun steps n' g' = Inr (g', n', []))"
    by blast
  have s: "score g' = \<lparr>player = 10, opponent = 11\<rparr>" using r(5) by (simp add: bump_def)
  have o: "\<not> isRunning g' \<and> ShowGameOver False 10 11 \<in> set ev
           \<and> (\<forall>steps n'. hostRun steps n' g' = Inr (g', n', []))"
    using r(6) by (simp add: s points_def winningScore_def)
  show ?thesis using b r(1-4) s o by (simp del: hostRun.simps)
qed

section \<open>The throttle of sendGameState\<close>

lemma spaced_Cons:
  assumes "spaced ts" and "\<forall>u \<in> set ts. u \<ge> t + stateSendInterval"
  shows "spaced (t # ts)"
  using assms by (cases ts) auto

lemma sentTimes_append: "sentTimes (a @ b) = sentTimes a @ sentTimes b"
  by (simp add: sentTimes_def)

lemma sentTimes_stamp: "set (sentTimes (map (Pair t) ev)) \<subseteq> {t}"
  by (auto simp add: sentTimes_def)

lemma sentTimes_send:
  "sentTimes (map (Pair t) (send e n m))
     = (if connection n \<and> isConnected n \<and> \<not> sendThrows e then [t] else [])"
  by (simp add: sentTimes_def send_def)

lemma sendLog_spaced:
  "spaced (sentTimes (sendLog as n))
   \<and> (\<forall>t \<in> set (sentTimes (sendLog as n)). t \<ge> lastStateSend n + stateSendInterval)"
proof (induction as arbitrary: n)
  case Nil
  show ?case by (simp add: sentTimes_def)
next
  case (Cons a as)
  obtain e st where a: "a = (e, st)" by (cases a)
  show ?case
  proof (cases "dateNow e - lastStateSend n \<ge> stateSendInterval")
    case False
    then have "sendLog (a # as) n = sendLog as n" by (simp add: a sendGameState_def)
    then show ?thesis using Cons.IH[of n] by simp
  next
    case True
    let ?n1 = "n\<lparr>lastStateSend := dateNow e\<rparr>"
    have lg: "sendLog (a # as) n
                = map (Pair (dateNow e)) (send e n (GameState st)) @ sendLog as ?n1"
      using True by (simp add: a sendGameState_def)
    have ih: "spaced (sentTimes (sendLog as ?n1))"
      "\<forall>t \<in> set (sentTimes (sendLog as ?n1)). t \<ge> dateNow e + stateSendInterval"
      using Cons.IH[of ?n1] by simp_all
    have pos: "0 \<le> stateSendInterval" by (simp add: stateSendInterval_def)
    show ?thesis
    proof (cases "connection n \<and> isConnected n \<and> \<not> sendThrows e")
      case emit: True
      have "sentTimes (sendLog (a # as) n) = dateNow e # sentTimes (sendLog as ?n1)"
        using emit by (simp add: lg sentTimes_append sentTimes_send)
      then show ?thesis using spaced_Cons[OF ih] ih(2) True pos by auto
    next
      case False
      have "sentTimes (sendLog (a # as) n) = sentTimes (sendLog as ?n1)"
        using False by (simp add: lg sentTimes_append sentTimes_send)
      then show ?thesis using ih True pos by auto
    qed
  qed
qed

lemma sentTimes_subset: "set (sentTimes (sendLog as n)) \<subseteq> dateNow ` fst ` set as"
proof (induction as arbitrary: n)
  case Nil
  show ?case by (simp add: sentTimes_def)
next
  case (Cons a as)
  obtain e st where a: "a = (e, st)" by (cases a)
  obtain n1 ev where s: "sendGameState e n st = (n1, ev)" by (cases "sendGameState e n st")
  have "sentTimes (sendLog (a # as) n)
          = sentTimes (map (Pair (dateNow e)) ev) @ sentTimes (sendLog as n1)"
    by (simp add: a s sentTimes_append)
  then show ?case using Cons.IH[of n1] sentTimes_stamp[of "dateNow e" ev] a by auto
qed

lemma spaced_length:
  assumes "spaced (t # ts)" and "\<forall>u \<in> set (t # ts). u \<le> b"
  shows "int (length (t # ts)) \<le> (b - t) div stateSendInterval + 1"
  using assms
proof (induction ts arbitrary: t)
  case Nil
  then have "0 \<le> (b - t) div stateSendInterval" by (simp add: stateSendInterval_def)
  then show ?case by simp
next
  case (Cons u ts)
  have "int (length (u # ts)) \<le> (b - u) div stateSendInterval + 1"
    using Cons.IH[of u] Cons.prems by simp
  moreover have "u - t \<ge> stateSendInterval" using Cons.prems by simp
  then have "(b - u) div stateSendInterval + 1 \<le> (b - t) div stateSendInterval"
    unfolding stateSendInterval_def by linarith
  ultimately show ?case by simp
qed

lemma window_count:
  assumes "dateNow ` fst ` set as \<subseteq> {t0 .. t0 + 200}"
  shows "length (sentTimes (sendLog as n)) \<le> 7"
proof (cases "sentTimes (sendLog as n)")
  case Nil
  then show ?thesis by simp
next
  case (Cons t ts)
  have sp: "spaced (t # ts)" using sendLog_spaced[of as n] Cons by simp
  have "set (sentTimes (sendLog as n)) \<subseteq> {t0 .. t0 + 200}"
    using sentTimes_subset[of as n] assms by (rule subset_trans)
  then have rng: "set (t # ts) \<subseteq> {t0 .. t0 + 200}" by (simp only: Cons)
  then have ub: "\<forall>u \<in> set (t # ts). u \<le> t0 + 200" and lb: "t0 \<le> t" by auto
  have "int (length (t # ts)) \<le> (t0 + 200 - t) div stateSendInterval + 1"
    by (rule spaced_length[OF sp ub])
  also have "\<dots> \<le> 7" using lb unfolding stateSendInterval_def by linarith
  finally show ?thesis using Cons by simp
qed

lemma every_5_in_window: "dateNow ` fst ` set (attemptsEvery 5 t0 41 st) \<subseteq> {t0 .. t0 + 200}"
  by (auto simp add: attemptsEvery_def)

text \<open>
  C8: a call of \<open>sendGameState\<close> less than 33 ms after \<open>lastStateSend\<close> sends nothing and
  leaves the network state as it was (the message is dropped, nothing is queued); in any
  series of calls, two messages that are sent one after the other are at least 33 ms
  apart; so calls whose times lie within 200 ms send at most \<open>\<lceil>200 / 33\<rceil>\<close> messages, in
  particular calls every 5 ms from \<open>t0\<close> to \<open>t0 + 200\<close>.
\<close>

theorem gameState_broadcasts_are_throttled:
  "(dateNow e - lastStateSend n < stateSendInterval \<longrightarrow> sendGameState e n st = (n, []))
   \<and> spaced (sentTimes (sendLog as n))
   \<and> (dateNow ` fst ` set as \<subseteq> {t0 .. t0 + 200}
        \<longrightarrow> length (sentTimes (sendLog as n)) \<le> nat \<lceil>(200::real) / 33\<rceil>)
   \<and> length (sentTimes (sendLog (attemptsEvery 5 t0 41 st) n)) \<le> nat \<lceil>(200::real) / 33\<rceil>"
proof -
  have c: "nat \<lceil>(200::real) / 33\<rceil> = 7" by simp
  show ?thesis
    unfolding c
    using sendLog_spaced[of as n] window_count[of as t0 n]
      window_count[OF every_5_in_window, of t0 st n]
    by (simp add: sendGameState_def)
qed

lemma every_5_sent:
  "sentTimes (sendLog (attemptsEvery 5 1000 41 st) linkedNetwork)
     = [1000, 1035, 1070, 1105, 1140, 1175]"
  by (simp add: attemptsEvery_def upt_rec sendGameState_def send_def sentTimes_def
      linkedNetwork_def stateSendInterval_def)

theorem gameState_broadcasts_are_throttled_witness:
  "dateNow (envAt 1010) - lastStateSend (linkedNetwork\<lparr>lastStateSend := 1000\<rparr>) < stateSendInterval
   \<and> sendGameState (envAt 1010) (linkedNetwork\<lparr>lastStateSend := 1000\<rparr>)
         (snapshotOf (puckAt 200 300 0 0) \<lparr>player = 0, opponent = 0\<rparr>)
       = (linkedNetwork\<lparr>lastStateSend := 1000\<rparr>, [])
   \<and> dateNow ` fst ` set (attemptsEvery 5 1000 41 (snapshotOf (puckAt 200 300 0 0) \<lparr>player = 0, opponent = 0\<rparr>))
       \<subseteq> {1000 .. 1000 + 200}
   \<and> spaced (sentTimes (sendLog
         (attemptsEvery 5 1000 41 (snapshotOf (puckAt 200 300 0 0) \<lparr>player = 0, opponent = 0\<rparr>))
         linkedNetwork))
   \<and> length (sentTimes (sendLog
         (attemptsEvery 5 1000 41 (snapshotOf (puckAt 200 300 0 0) \<lparr>player = 0, opponent = 0\<rparr>))
         linkedNetwork)) \<le> 7
   \<and> sentTimes (sendLog
         (attemptsEvery 5 1000 41 (snapshotOf (puckAt 200 300 0 0) \<lparr>player = 0, opponent = 0\<rparr>))
         linkedNetwork) = [1000, 1035, 1070, 1105, 1140, 1175]"
proof -
  let ?st = "snapshotOf (puckAt 200 300 0 0) \<lparr>player = 0, opponent = 0\<rparr>"
  have h1: "dateNow (envAt 1010) - lastStateSend (linkedNetwork\<lparr>lastStateSend := 1000\<rparr>) < stateSendInterval"
    by (simp add: envAt_def stateSendInterval_def)
  have h2: "dateNow ` fst ` set (attemptsEvery 5 1000 41 ?st) \<subseteq> {1000 .. 1000 + 200}"
    by (rule every_5_in_window)
  have c: "nat \<lceil>(200::real) / 33\<rceil> = 7" by simp
  from gameState_broadcasts_are_throttled
    [of "envAt 1010" "linkedNetwork\<lparr>lastStateSend := 1000\<rparr>" ?st "[]" 0]
  have a: "sendGameState (envAt 1010) (linkedNetwork\<lparr>lastStateSend := 1000\<rparr>) ?st
             = (linkedNetwork\<lparr>lastStateSend := 1000\<rparr>, [])"
    using h1 by blast
  from gameState_broadcasts_are_throttled
    [of "envAt 1010" linkedNetwork ?st "attemptsEvery 5 1000 41 ?st" 1000]
  have b: "spaced (sentTimes (sendLog (attemptsEvery 5 1000 41 ?st) linkedNetwork))
           \<and> length (sentTimes (sendLog (attemptsEvery 5 1000 41 ?st) linkedNetwork)) \<le> 7"
    using h2 unfolding c by blast
  show ?thesis using h1 h2 a b every_5_sent[of ?st] by blast
qed

section \<open>The bounce off the left wall\<close>

lemma sqrt_ge_iff_square:
  fixes r s :: real
  assumes "0 \<le> r"
  shows "r \<le> sqrt s \<longleftrightarrow> r * r \<le> s"
  using sqrt_less_iff_square[OF assms, of s] by auto

lemma centreDistance_same_position:
  assumes "px q = px p" and "py q = py p"
  shows "centreDistance q pad = centreDistance p pad"
  using assms by (simp add: centreDistance_def)

lemma out_of_reach:
  assumes "radius p + radius pad \<le> centreDistance p pad"
  shows "checkPaddleCollision p pad = (p, [])"
  using assms by (intro no_collision) simp

lemma left_wall_stage:
  assumes "px p0 = wallLeft g p0 - 1" and "vx p0 = - 3" and "vy p0 = 0" and "0 \<le> dt"
  shows "beforeEndWalls g dt p0
           = (p0\<lparr>px := wallLeft g p0, py := py p0, vx := 2.7 * friction powr dt, vy := 0\<rparr>,
              [Play ''wall''])"
proof -
  let ?m = "applyFriction dt (movePuck dt p0)"
  have sp0: "speed (movePuck dt p0) = 3"
    using assms(2,3) by (simp add: speed_def movePuck_def sqrt_is[of 3])
  have "speed ?m = friction powr dt * 3" by (simp add: speed_applyFriction sp0)
  also have "\<dots> \<le> 1 * 3" using friction_factor_le_one[OF assms(4)] by (intro mult_right_mono) simp_all
  finally have "\<not> maxPuckSpeed < speed ?m" by (simp add: maxPuckSpeed_def)
  then have c: "clampSpeed ?m = ?m" by (simp add: clampSpeed_def)
  have r: "radius ?m = radius p0" by (simp add: applyFriction_def movePuck_def)
  have x: "px ?m = wallLeft g p0 - 1 - 3 * dt"
    using assms(1,2) by (simp add: applyFriction_def movePuck_def)
  have lt: "px ?m < wallLeft g ?m" using x assms(4) r by (simp add: wallLeft_def)
  have "sideWalls g ?m = (?m\<lparr>px := wallLeft g ?m, vx := - vx ?m * 0.9\<rparr>, [Play ''wall''])"
    using lt by (simp add: sideWalls_def)
  also have "?m\<lparr>px := wallLeft g ?m, vx := - vx ?m * 0.9\<rparr>
               = p0\<lparr>px := wallLeft g p0, py := py p0, vx := 2.7 * friction powr dt, vy := 0\<rparr>"
    using assms(2,3) by (simp add: applyFriction_def movePuck_def wallLeft_def)
  finally show ?thesis by (simp add: beforeEndWalls_def c)
qed

lemma left_wall_tick:
  assumes "puck g = Some p0" and "playerPaddle g = Some pp" and "opponentPaddle g = Some op"
    and "px p0 = wallLeft g p0 - 1" and "py p0 = height g / 2"
    and "vx p0 = - 3" and "vy p0 = 0" and "0 \<le> dt"
    and "wallTop g p0 \<le> height g / 2" and "height g / 2 \<le> wallBottom g p0"
    and "radius p0 + radius pp \<le> centreDistance (p0\<lparr>px := wallLeft g p0\<rparr>) pp"
    and "radius p0 + radius op \<le> centreDistance (p0\<lparr>px := wallLeft g p0\<rparr>) op"
  shows "updatePhysics e n g dt =
           Inr (g\<lparr>puck := Some (p0\<lparr>px := wallLeft g p0, py := py p0,
                                     vx := 2.7 * friction powr dt, vy := 0\<rparr>),
                   puckTrail := pushTrail (px p0, py p0) (puckTrail g)\<rparr>,
                (if isConnected n
                 then fst (sendGameState e n
                        (snapshotOf (p0\<lparr>px := wallLeft g p0, py := py p0,
                                        vx := 2.7 * friction powr dt, vy := 0\<rparr>) (score g)))
                 else n),
                [Play ''wall''] @
                (if isConnected n
                 then snd (sendGameState e n
                        (snapshotOf (p0\<lparr>px := wallLeft g p0, py := py p0,
                                        vx := 2.7 * friction powr dt, vy := 0\<rparr>) (score g)))
                 else []))"
proof -
  let ?q = "p0\<lparr>px := wallLeft g p0, py := py p0, vx := 2.7 * friction powr dt, vy := 0\<rparr>"
  have b: "beforeEndWalls g dt p0 = (?q, [Play ''wall''])"
    by (rule left_wall_stage[OF assms(4,6,7,8)])
  have t: "topWall g ?q = Inr (?q, [])"
    using assms(5,9) by (simp add: topWall_def wallTop_def)
  have bt: "bottomWall g ?q = Inr (?q, [])"
    using assms(5,10) by (simp add: bottomWall_def wallBottom_def)
  have "centreDistance ?q pp = centreDistance (p0\<lparr>px := wallLeft g p0\<rparr>) pp"
    by (rule centreDistance_same_position) simp_all
  then have c1: "checkPaddleCollision ?q pp = (?q, [])"
    using assms(11) by (intro out_of_reach) simp
  have "centreDistance ?q op = centreDistance (p0\<lparr>px := wallLeft g p0\<rparr>) op"
    by (rule centreDistance_same_position) simp_all
  then have c2: "checkPaddleCollision ?q op = (?q, [])"
    using assms(12) by (intro out_of_reach) simp
  from updatePhysics_in_play[OF assms(1) b t bt assms(2,3) c1 c2, of e n]
  show ?thesis by simp
qed

lemma friction_is_one_iff: "friction powr dt = 1 \<longleftrightarrow> dt = 0"
  by (simp add: friction_def)

lemma table_paddles_far:
  "radius (puckAt 27 300 (- 3) 0) + radius homePaddle
     \<le> centreDistance ((puckAt 27 300 (- 3) 0)\<lparr>px := 28\<rparr>) homePaddle"
  "radius (puckAt 27 300 (- 3) 0) + radius awayPaddle
     \<le> centreDistance ((puckAt 27 300 (- 3) 0)\<lparr>px := 28\<rparr>) awayPaddle"
  by (simp_all add: centreDistance_def sqrt_ge_iff_square)

lemma puckAt_moved:
  "(puckAt x y u v)\<lparr>px := x', py := y', vx := u', vy := v'\<rparr> = puckAt x' y' u' v'"
  by (simp add: puckAt_def)

lemma table_left_wall_tick:
  "updatePhysics (envAt 1000) linkedNetwork
     (tableWith (puckAt 27 300 (- 3) 0) \<lparr>player = 0, opponent = 0\<rparr> True) dt
   = Inr (tableWith (puckAt 27 300 (- 3) 0) \<lparr>player = 0, opponent = 0\<rparr> True
            \<lparr>puck := Some (puckAt 28 300 (2.7 * friction powr dt) 0),
             puckTrail := [(27, 300)]\<rparr>,
          linkedNetwork\<lparr>lastStateSend := 1000\<rparr>,
          [Play ''wall'',
           Sent (GameState (snapshotOf (puckAt 28 300 (2.7 * friction powr dt) 0)
                              \<lparr>player = 0, opponent = 0\<rparr>))])"
  if "0 \<le> dt"
proof -
  let ?g = "tableWith (puckAt 27 300 (- 3) 0) \<lparr>player = 0, opponent = 0\<rparr> True"
  define k where "k = 2.7 * friction powr dt"
  have w: "wallLeft ?g (puckAt 27 300 (- 3) 0) = 28" by simp
  have far: "radius (puckAt 27 300 (- 3) 0) + radius homePaddle
       \<le> centreDistance ((puckAt 27 300 (- 3) 0)\<lparr>px := wallLeft ?g (puckAt 27 300 (- 3) 0)\<rparr>) homePaddle"
    "radius (puckAt 27 300 (- 3) 0) + radius awayPaddle
       \<le> centreDistance ((puckAt 27 300 (- 3) 0)\<lparr>px := wallLeft ?g (puckAt 27 300 (- 3) 0)\<rparr>) awayPaddle"
    unfolding w by (rule table_paddles_far)+
  have u: "updatePhysics (envAt 1000) linkedNetwork ?g dt =
           Inr (?g\<lparr>puck := Some ((puckAt 27 300 (- 3) 0)\<lparr>px := 28, py := 300, vx := k, vy := 0\<rparr>),
                   puckTrail := pushTrail (27, 300) []\<rparr>,
                (if isConnected linkedNetwork
                 then fst (sendGameState (envAt 1000) linkedNetwork
                        (snapshotOf ((puckAt 27 300 (- 3) 0)\<lparr>px := 28, py := 300, vx := k, vy := 0\<rparr>)
                           \<lparr>player = 0, opponent = 0\<rparr>))
                 else linkedNetwork),
                [Play ''wall''] @
                (if isConnected linkedNetwork
                 then snd (sendGameState (envAt 1000) linkedNetwork
                        (snapshotOf ((puckAt 27 300 (- 3) 0)\<lparr>px := 28, py := 300, vx := k, vy := 0\<rparr>)
                           \<lparr>player = 0, opponent = 0\<rparr>))
                 else []))"
    using left_wall_tick[of ?g "puckAt 27 300 (- 3) 0" homePaddle awayPaddle dt "envAt 1000" linkedNetwork,
        OF _ _ _ _ _ _ _ that _ _ far]
    unfolding k_def[symmetric] by simp
  show ?thesis
    unfolding u puckAt_moved k_def[symmetric]
    by (simp add: pushTrail_def maxTrailLength_def sendGameState_def send_def linkedNetwork_def
        envAt_def stateSendInterval_def)
qed

text \<open>
  C5 as stated fails: with a frame time of 1 the tick applies the friction factor 0.995 to
  the velocity before the wall reverses it, so the puck leaves the wall with
  \<open>vx = 2.7 * 0.995 = 2.6865\<close>, not 2.7.
\<close>

theorem left_wall_bounce_is_not_2_7:
  "map_option px (puckAfter (updatePhysics (envAt 1000) linkedNetwork
       (tableWith (puckAt 27 300 (- 3) 0) \<lparr>player = 0, opponent = 0\<rparr> True) 1)) = Some 28
   \<and> map_option vx (puckAfter (updatePhysics (envAt 1000) linkedNetwork
       (tableWith (puckAt 27 300 (- 3) 0) \<lparr>player = 0, opponent = 0\<rparr> True) 1)) = Some 2.6865
   \<and> map_option vx (puckAfter (updatePhysics (envAt 1000) linkedNetwork
       (tableWith (puckAt 27 300 (- 3) 0) \<lparr>player = 0, opponent = 0\<rparr> True) 1)) \<noteq> Some 2.7"
  using table_left_wall_tick[of 1] by (simp add: puckAfter_def friction_def)

text \<open>
  C5, amended: for a puck that starts a tick at \<open>(wallLeft - 1, height / 2)\<close> with velocity
  \<open>(-3, 0)\<close>, on a table whose middle lies between the end walls and whose paddles do not
  reach the puck at \<open>(wallLeft, height / 2)\<close>, one physics tick of frame time \<open>dt \<ge> 0\<close>
  leaves the puck at \<open>x = wallLeft\<close>, \<open>y = height / 2\<close> with velocity
  \<open>(2.7 * 0.995 ^ dt, 0)\<close>, which is \<open>(2.7, 0)\<close> only for \<open>dt = 0\<close>, and plays the "wall"
  sound.
\<close>

theorem left_wall_bounce_after_friction:
  assumes "puck g = Some p0" and "playerPaddle g = Some pp" and "opponentPaddle g = Some op"
    and "px p0 = wallLeft g p0 - 1" and "py p0 = height g / 2"
    and "vx p0 = - 3" and "vy p0 = 0" and "0 \<le> dt"
    and "wallTop g p0 \<le> height g / 2" and "height g / 2 \<le> wallBottom g p0"
    and "radius p0 + radius pp \<le> centreDistance (p0\<lparr>px := wallLeft g p0\<rparr>) pp"
    and "radius p0 + radius op \<le> centreDistance (p0\<lparr>px := wallLeft g p0\<rparr>) op"
  shows "\<exists>g' n' ev q. updatePhysics e n g dt = Inr (g', n', ev) \<and> puck g' = Some q
           \<and> px q = wallLeft g p0 \<and> py q = height g / 2
           \<and> vx q = 2.7 * friction powr dt \<and> vy q = 0
           \<and> (vx q = 2.7 \<longleftrightarrow> dt = 0)
           \<and> Play ''wall'' \<in> set ev"
  using left_wall_tick[OF assms, of e n] assms(5) by (simp add: friction_is_one_iff)

theorem left_wall_bounce_after_friction_witness:
  "puck (tableWith (puckAt 27 300 (- 3) 0) \<lparr>player = 0, opponent = 0\<rparr> True) = Some (puckAt 27 300 (- 3) 0)
   \<and> px (puckAt 27 300 (- 3) 0)
       = wallLeft (tableWith (puckAt 27 300 (- 3) 0) \<lparr>player = 0, opponent = 0\<rparr> True) (puckAt 27 300 (- 3) 0) - 1
   \<and> py (puckAt 27 300 (- 3) 0) = height (tableWith (puckAt 27 300 (- 3) 0) \<lparr>player = 0, opponent = 0\<rparr> True) / 2
   \<and> vx (puckAt 27 300 (- 3) 0) = - 3 \<and> vy (puckAt 27 300 (- 3) 0) = 0 \<and> (0::real) \<le> 1
   \<and> wallTop (tableWith (puckAt 27 300 (- 3) 0) \<lparr>player = 0, opponent = 0\<rparr> True) (puckAt 27 300 (- 3) 0)
       \<le> height (tableWith (puckAt 27 300 (- 3) 0) \<lparr>player = 0, opponent = 0\<rparr> True) / 2
   \<and> height (tableWith (puckAt 27 300 (- 3) 0) \<lparr>player = 0, opponent = 0\<rparr> True) / 2
       \<le> wallBottom (tableWith (puckAt 27 300 (- 3) 0) \<lparr>player = 0, opponent = 0\<rparr> True) (puckAt 27 300 (- 3) 0)
   \<and> radius (puckAt 27 300 (- 3) 0) + radius homePaddle
       \<le> centreDistance ((puckAt 27 300 (- 3) 0)\<lparr>px := 28\<rparr>) homePaddle
   \<and> radius (puckAt 27 300 (- 3) 0) + radius awayPaddle
       \<le> centreDistance ((puckAt 27 300 (- 3) 0)\<lparr>px := 28\<rparr>) awayPaddle
   \<and> (\<exists>g' n' ev q. updatePhysics (envAt 1000) linkedNetwork
          (tableWith (puckAt 27 300 (- 3) 0) \<lparr>player = 0, opponent = 0\<rparr> True) 1 = Inr (g', n', ev)
        \<and> puck g' = Some q \<and> px q = 28 \<and> py q = 300 \<and> vx q = 2.6865 \<and> vy q = 0
        \<and> Play ''wall'' \<in> set ev)"
proof -
  let ?g = "tableWith (puckAt 27 300 (- 3) 0) \<lparr>player = 0, opponent = 0\<rparr> True"
  have w: "wallLeft ?g (puckAt 27 300 (- 3) 0) = 28" by simp
  have h: "puck ?g = Some (puckAt 27 300 (- 3) 0)" "playerPaddle ?g = Some homePaddle"
    "opponentPaddle ?g = Some awayPaddle"
    "px (puckAt 27 300 (- 3) 0) = wallLeft ?g (puckAt 27 300 (- 3) 0) - 1"
    "py (puckAt 27 300 (- 3) 0) = height ?g / 2"
    "vx (puckAt 27 300 (- 3) 0) = - 3" "vy (puckAt 27 300 (- 3) 0) = 0" "(0::real) \<le> 1"
    "wallTop ?g (puckAt 27 300 (- 3) 0) \<le> height ?g / 2"
    "height ?g / 2 \<le> wallBottom ?g (puckAt 27 300 (- 3) 0)"
    by simp_all
  have far: "radius (puckAt 27 300 (- 3) 0) + radius homePaddle
       \<le> centreDistance ((puckAt 27 300 (- 3) 0)\<lparr>px := wallLeft ?g (puckAt 27 300 (- 3) 0)\<rparr>) homePaddle"
    "radius (puckAt 27 300 (- 3) 0) + radius awayPaddle
       \<le> centreDistance ((puckAt 27 300 (- 3) 0)\<lparr>px := wallLeft ?g (puckAt 27 300 (- 3) 0)\<rparr>) awayPaddle"
    unfolding w by (rule table_paddles_far)+
  have f: "2.7 * friction powr 1 = (2.6865::real)" by (simp add: friction_def)
  from left_wall_bounce_after_friction[OF h far, of "envAt 1000" linkedNetwork]
  have r: "\<exists>g' n' ev q. updatePhysics (envAt 1000) linkedNetwork ?g 1 = Inr (g', n', ev)
        \<and> puck g' = Some q \<and> px q = 28 \<and> py q = 300 \<and> vx q = 2.6865 \<and> vy q = 0
        \<and> Play ''wall'' \<in> set ev"
    unfolding w f by auto
  show ?thesis using h(1,4-10) table_paddles_far r by blast
qed

section \<open>Scores and the end of the match\<close>




















lemma sscore_snapshotOf [simp]: "sscore (snapshotOf p sc) = sc"
  by (simp add: snapshotOf_def)


lemma scoreLe_mirror [simp]: "scoreLe (mirrorScore a) (mirrorScore b) = scoreLe a b"
  by (auto simp add: scoreLe_def mirrorScore_def)























section \<open>createGame: when the promise settles\<close>

lemma settle_settled [simp]:
  "settle (Resolved v) w = Resolved v" "settle (Rejected r) w = Rejected r" "settle Pending w = w"
  by (simp_all add: settle_def)

lemma createGameStep_settled:
  assumes "p \<noteq> Pending"
  shows "snd (createGameStep c (n, p)) = p"
  using assms by (cases c; cases p) simp_all

lemma createGameRun_append:
  "createGameRun (cs @ ds) st = createGameRun ds (createGameRun cs st)"
  by (simp add: createGameRun_def)

lemma createGameRun_Cons:
  "createGameRun (c # cs) st = createGameRun cs (createGameStep c st)"
  by (simp add: createGameRun_def)

lemma createGameRun_Nil: "createGameRun [] st = st"
  by (simp add: createGameRun_def)

lemma createGameStep_roomCode:
  assumes "roomCode n = Some code"
  shows "roomCode (fst (createGameStep c (n, p))) = Some (lastCode code [c])"
  using assms by (cases c) (simp_all add: createGame_def setupConnection_def)

lemma lastCode_Cons: "lastCode code (c # cs) = lastCode (lastCode code [c]) cs"
  by (cases c) simp_all

lemma createGameRun_roomCode:
  assumes "roomCode n = Some code"
  shows "roomCode (fst (createGameRun cs (n, p))) = Some (lastCode code cs)"
  using assms
proof (induction cs arbitrary: n p code)
  case Nil
  then show ?case by (simp add: createGameRun_Nil)
next
  case (Cons c cs)
  obtain n1 p1 where s: "createGameStep c (n, p) = (n1, p1)" by (cases "createGameStep c (n, p)")
  have "roomCode n1 = Some (lastCode code [c])"
    using createGameStep_roomCode[OF Cons.prems, of c p] s by simp
  from Cons.IH[OF this, of p1] show ?case
    by (simp add: createGameRun_Cons s lastCode_Cons[of code c cs])
qed

lemma createGameStep_resolves:
  assumes "snd (createGameStep c (n, p)) = Resolved v" and "p = Pending"
  shows "c = PeerOpen \<and> v = roomCode n"
  using assms by (cases c) (simp_all split: if_splits)

lemma createGameRun_resolved_by_open:
  assumes "snd (createGameRun cs st) = Resolved v" and "snd st = Pending"
  shows "\<exists>pre post. cs = pre @ PeerOpen # post \<and> snd (createGameRun pre st) = Pending
           \<and> v = roomCode (fst (createGameRun pre st))"
  using assms
proof (induction cs arbitrary: v rule: rev_induct)
  case Nil
  then show ?case by (simp add: createGameRun_Nil)
next
  case (snoc c cs)
  obtain n1 p1 where s: "createGameRun cs st = (n1, p1)" by (cases "createGameRun cs st")
  have r: "snd (createGameStep c (n1, p1)) = Resolved v"
    using snoc.prems(1) by (simp add: createGameRun_append createGameRun_Cons createGameRun_Nil s)
  show ?case
  proof (cases "p1 = Pending")
    case True
    from createGameStep_resolves[OF r True] have "c = PeerOpen" "v = roomCode n1" by simp_all
    then have "cs @ [c] = cs @ PeerOpen # [] \<and> snd (createGameRun cs st) = Pending
           \<and> v = roomCode (fst (createGameRun cs st))" using s True by simp
    then show ?thesis by blast
  next
    case False
    from createGameStep_settled[OF False, of c n1] r have "p1 = Resolved v" by simp
    then have "snd (createGameRun cs st) = Resolved v" using s by simp
    from snoc.IH[OF this snoc.prems(2)] obtain pre post where
      "cs = pre @ PeerOpen # post" "snd (createGameRun pre st) = Pending"
      "v = roomCode (fst (createGameRun pre st))" by blast
    then have "cs @ [c] = pre @ PeerOpen # (post @ [c]) \<and> snd (createGameRun pre st) = Pending
           \<and> v = roomCode (fst (createGameRun pre st))" by simp
    then show ?thesis by blast
  qed
qed

lemma createGameStep_isConnected:
  assumes "c \<noteq> ConnectionOpen"
  shows "isConnected (fst (createGameStep c (n, p))) = isConnected n"
  using assms by (cases c) (simp_all add: createGame_def)

lemma createGameRun_isConnected:
  assumes "ConnectionOpen \<notin> set cs"
  shows "isConnected (fst (createGameRun cs (n, p))) = isConnected n"
  using assms
proof (induction cs arbitrary: n p)
  case Nil
  then show ?case by (simp add: createGameRun_Nil)
next
  case (Cons c cs)
  obtain n1 p1 where s: "createGameStep c (n, p) = (n1, p1)" by (cases "createGameStep c (n, p)")
  have "c \<noteq> ConnectionOpen" using Cons.prems by auto
  from createGameStep_isConnected[OF this, of n p] have "isConnected n1 = isConnected n"
    using s by simp
  moreover have "isConnected (fst (createGameRun cs (n1, p1))) = isConnected n1"
    using Cons.IH[of n1 p1] Cons.prems by simp
  ultimately show ?case by (simp add: createGameRun_Cons s)
qed

text \<open>
  C7 as stated fails: the promise of \<open>createGame\<close> resolves with the room code when the
  host's own peer opens, before any remote peer has connected; the timer that fires 60
  seconds later finds the promise settled, so it stays resolved although nobody has
  connected.
\<close>

theorem createGame_resolves_before_any_connection:
  "createGameRun [PeerOpen] (createGame ''4821'' initialNetwork)
     = (initialNetwork\<lparr>roomCode := Some ''4821'', isHostN := True\<rparr>, Resolved (Some ''4821''))
   \<and> createGameRun [PeerOpen, TimeoutFires] (createGame ''4821'' initialNetwork)
     = (initialNetwork\<lparr>roomCode := Some ''4821'', isHostN := True\<rparr>, Resolved (Some ''4821''))
   \<and> \<not> isConnected (initialNetwork\<lparr>roomCode := Some ''4821'', isHostN := True\<rparr>)
   \<and> \<not> connection (initialNetwork\<lparr>roomCode := Some ''4821'', isHostN := True\<rparr>)"
  by (simp add: createGameRun_def createGame_def initialNetwork_def)

text \<open>
  C7, amended: \<open>createGame\<close> resolves with the room code as soon as the host's own peer
  has opened, whether or not a remote peer has connected or opened its channel.  Over any
  series of callbacks that has left the promise pending, the peer's \<open>open\<close> resolves it with
  the room code then in force and changes nothing in the network state; a resolved promise
  has been resolved by an \<open>open\<close> that fired while it was pending; and without an open
  connection before it, \<open>isConnected\<close> is as it was when \<open>createGame\<close> was called.
\<close>

theorem createGame_resolves_on_peer_open:
  "(snd (createGameRun cs (createGame code n)) = Pending \<longrightarrow>
      createGameRun (cs @ [PeerOpen]) (createGame code n)
        = (fst (createGameRun cs (createGame code n)), Resolved (Some (lastCode code cs))))
   \<and> (snd (createGameRun cs (createGame code n)) = Resolved v \<longrightarrow>
        (\<exists>pre post. cs = pre @ PeerOpen # post
           \<and> snd (createGameRun pre (createGame code n)) = Pending
           \<and> v = Some (lastCode code pre)))
   \<and> (ConnectionOpen \<notin> set cs \<longrightarrow>
        isConnected (fst (createGameRun (cs @ [PeerOpen]) (createGame code n))) = isConnected n)"
proof -
  have rc: "\<And>ds. roomCode (fst (createGameRun ds (createGame code n))) = Some (lastCode code ds)"
    unfolding createGame_def by (rule createGameRun_roomCode) simp
  have a: "snd (createGameRun cs (createGame code n)) = Pending \<Longrightarrow>
      createGameRun (cs @ [PeerOpen]) (createGame code n)
        = (fst (createGameRun cs (createGame code n)), Resolved (Some (lastCode code cs)))"
  proof -
    assume pend: "snd (createGameRun cs (createGame code n)) = Pending"
    obtain n1 p1 where s: "createGameRun cs (createGame code n) = (n1, p1)"
      by (cases "createGameRun cs (createGame code n)")
    have "p1 = Pending" using pend s by simp
    moreover have "roomCode n1 = Some (lastCode code cs)" using rc[of cs] s by simp
    ultimately show ?thesis
      by (simp add: createGameRun_append createGameRun_Cons createGameRun_Nil s)
  qed
  have b: "snd (createGameRun cs (createGame code n)) = Resolved v \<Longrightarrow>
        (\<exists>pre post. cs = pre @ PeerOpen # post
           \<and> snd (createGameRun pre (createGame code n)) = Pending
           \<and> v = Some (lastCode code pre))"
  proof -
    assume "snd (createGameRun cs (createGame code n)) = Resolved v"
    moreover have "snd (createGame code n) = Pending" by (simp add: createGame_def)
    ultimately obtain pre post where "cs = pre @ PeerOpen # post"
      "snd (createGameRun pre (createGame code n)) = Pending"
      "v = roomCode (fst (createGameRun pre (createGame code n)))"
      using createGameRun_resolved_by_open by blast
    then show ?thesis using rc[of pre] by auto
  qed
  have c: "ConnectionOpen \<notin> set cs \<Longrightarrow>
        isConnected (fst (createGameRun (cs @ [PeerOpen]) (createGame code n))) = isConnected n"
    unfolding createGame_def
    using createGameRun_isConnected[of "cs @ [PeerOpen]" "n\<lparr>roomCode := Some code, isHostN := True\<rparr>" Pending]
    by simp
  from a b c show ?thesis by blast
qed

theorem createGame_resolves_on_peer_open_witness:
  "snd (createGameRun [PeerErrorFires ''unavailable-id'' ''7305'', PeerConnection]
          (createGame ''4821'' initialNetwork)) = Pending
   \<and> createGameRun ([PeerErrorFires ''unavailable-id'' ''7305'', PeerConnection] @ [PeerOpen])
          (createGame ''4821'' initialNetwork)
       = (initialNetwork\<lparr>roomCode := Some ''7305'', isHostN := True, connection := True\<rparr>,
          Resolved (Some ''7305''))
   \<and> snd (createGameRun [PeerOpen, TimeoutFires] (createGame ''4821'' initialNetwork))
       = Resolved (Some ''4821'')
   \<and> (\<exists>pre post. [PeerOpen, TimeoutFires] = pre @ PeerOpen # post
         \<and> snd (createGameRun pre (createGame ''4821'' initialNetwork)) = Pending
         \<and> Some ''4821'' = Some (lastCode ''4821'' pre))
   \<and> ConnectionOpen \<notin> set [PeerErrorFires ''unavailable-id'' ''7305'', PeerConnection]
   \<and> \<not> isConnected (fst (createGameRun
          ([PeerErrorFires ''unavailable-id'' ''7305'', PeerConnection] @ [PeerOpen])
          (createGame ''4821'' initialNetwork)))"
  using createGame_resolves_on_peer_open
          [of "[PeerErrorFires ''unavailable-id'' ''7305'', PeerConnection]" "''4821''"
              initialNetwork "Some ''4821''"]
        createGame_resolves_on_peer_open
          [of "[PeerOpen, TimeoutFires]" "''4821''" initialNetwork "Some ''4821''"]
  by (simp add: createGameRun_def createGame_def initialNetwork_def)

end
